theory Spec2Isabelle
  imports Main "HOL-Library.Word" "HOL-Library.Char_ord" "HOL-Library.List_Lexorder"
begin

section \<open>The catalog manager \<open>SmManager\<close> (src/system/sm\_manager.cpp)\<close>

text \<open>
  A shallow embedding of \<^verbatim>\<open>SmManager\<close>: every member function becomes a function from
  the state before the call to the way the call ends (\<open>Returned\<close>, an exception, or a
  crash where C++ has undefined behaviour) together with the state at that moment, so
  that whatever was changed before a \<^verbatim>\<open>throw\<close> stays visible.
\<close>

subsection \<open>Catalog data (declared in sm\_meta.h, fields as sm\_manager.cpp uses them)\<close>

text \<open>C++ \<^verbatim>\<open>int\<close> is a 32-bit two's complement word; \<^verbatim>\<open>char\<close> is a byte.\<close>

type_synonym int32 = "32 word"
type_synonym bytes = "8 word list"

datatype ColType = TYPE_INT | TYPE_FLOAT | TYPE_STRING

text \<open>\<^verbatim>\<open>ColDef {name, type, len}\<close>, the argument of \<^verbatim>\<open>create_table\<close>.\<close>

record ColDef =
  cd_name :: string
  cd_type :: ColType
  cd_len :: int32

text \<open>
  \<^verbatim>\<open>ColMeta {tab_name, name, type, len, offset, index}\<close>. The fields of each struct carry
  the initials of the struct (\<open>cd_\<close>, \<open>cm_\<close>, \<open>im_\<close>, \<open>tm_\<close>, \<open>dm_\<close>), because \<^verbatim>\<open>name\<close>,
  \<^verbatim>\<open>tab_name\<close> and \<^verbatim>\<open>cols\<close> occur in several structs and as variables of the source.
\<close>

record ColMeta =
  cm_tab_name :: string
  cm_name :: string
  cm_type :: ColType
  cm_len :: int32
  cm_offset :: int32
  cm_index :: bool

text \<open>\<^verbatim>\<open>IndexMeta {tab_name, col_tot_len, col_num, cols}\<close>.\<close>

record IndexMeta =
  im_tab_name :: string
  im_col_tot_len :: int32
  im_col_num :: int32
  im_cols :: "ColMeta list"

text \<open>\<^verbatim>\<open>TabMeta {name, cols, indexes}\<close>.\<close>

record TabMeta =
  tm_name :: string
  tm_cols :: "ColMeta list"
  tm_indexes :: "IndexMeta list"

text \<open>
  \<^verbatim>\<open>DbMeta {name_, tabs_}\<close>, without the trailing underscores, which an Isabelle name
  cannot end in (likewise \<open>db\<close>, \<open>fhs\<close>, \<open>ihs\<close> and \<open>txn\<close> below). \<^verbatim>\<open>tabs_\<close> is a
  \<^verbatim>\<open>std::map<std::string, TabMeta>\<close>: an association list kept in ascending key order,
  which is the order in which the source iterates over it.
\<close>

record DbMeta =
  dm_name :: string
  dm_tabs :: "(string \<times> TabMeta) list"

subsection \<open>Containers\<close>

text \<open>
  \<^verbatim>\<open>std::map\<close>: \<^verbatim>\<open>m[k] = v\<close> is \<open>map_assign\<close>, \<^verbatim>\<open>m.erase(k)\<close> is \<open>erase\<close>, a lookup is
  \<open>map_of\<close>, and \<open>modify\<close> writes through a reference to the element found under \<open>k\<close>.
\<close>

fun map_assign :: "string \<Rightarrow> 'v \<Rightarrow> (string \<times> 'v) list \<Rightarrow> (string \<times> 'v) list" where
  "map_assign k v [] = [(k, v)]"
| "map_assign k v ((k', v') # m) =
     (if k = k' then (k, v) # m
      else if k < k' then (k, v) # (k', v') # m
      else (k', v') # map_assign k v m)"

fun erase :: "string \<Rightarrow> (string \<times> 'v) list \<Rightarrow> (string \<times> 'v) list" where
  "erase k [] = []"
| "erase k ((k', v') # m) = (if k = k' then erase k m else (k', v') # erase k m)"

text \<open>
  \<^verbatim>\<open>std::unordered_map<std::string, std::unique_ptr<H>>\<close>, the type of both handle
  registries: an association list whose values are \<open>None\<close> for a null pointer. The
  order of the list stands for the unspecified iteration order. \<^verbatim>\<open>emplace\<close> leaves an
  existing key alone; \<^verbatim>\<open>m[k]\<close> inserts a null pointer under a missing key and yields
  the pointer stored under \<open>k\<close>; \<^verbatim>\<open>m[k] = std::move(h)\<close> stores \<open>h\<close>.
\<close>

definition emplace :: "string \<Rightarrow> 'h option \<Rightarrow> (string \<times> 'h option) list \<Rightarrow> (string \<times> 'h option) list" where
  "emplace k h m = (case map_of m k of None \<Rightarrow> m @ [(k, h)] | Some _ \<Rightarrow> m)"

definition subscript :: "string \<Rightarrow> (string \<times> 'h option) list \<Rightarrow> 'h option \<times> (string \<times> 'h option) list" where
  "subscript k m = (case map_of m k of None \<Rightarrow> (None, m @ [(k, None)]) | Some h \<Rightarrow> (h, m))"

fun modify :: "string \<Rightarrow> ('v \<Rightarrow> 'v) \<Rightarrow> (string \<times> 'v) list \<Rightarrow> (string \<times> 'v) list" where
  "modify k f [] = []"
| "modify k f ((k', v') # m) = (if k = k' then (k', f v') # m else (k', v') # modify k f m)"

fun store :: "string \<Rightarrow> 'h option \<Rightarrow> (string \<times> 'h option) list \<Rightarrow> (string \<times> 'h option) list" where
  "store k h [] = [(k, h)]"
| "store k h ((k', h') # m) = (if k = k' then (k, h) # m else (k', h') # store k h m)"

subsection \<open>The state: the members of \<^verbatim>\<open>SmManager\<close> and the world of its collaborators\<close>

text \<open>
  Record identifiers, record files and index files. A record file holds its record
  size and its live records in scan order; an index file holds its key columns and
  the entries inserted so far. A handle is the path of the file it is open on.
\<close>

record Rid =
  page_no :: int32
  slot_no :: int32

datatype disk_file = RecFile int32 "(Rid \<times> bytes) list" | IxFile "ColMeta list" "(bytes \<times> Rid) list"

type_synonym RmFileHandle = "string list"
type_synonym IxIndexHandle = "string list"

text \<open>\<^verbatim>\<open>Context\<close>: the source reads only \<^verbatim>\<open>context->txn_\<close>, a pointer to a transaction.\<close>

record Context =
  txn :: "nat option"

text \<open>
  The calls that reach the record manager, the index manager and the heap, in the order
  in which the source makes them.
\<close>

datatype event =
    Rm_create_file string int32
  | Rm_open_file string
  | Rm_close_file RmFileHandle
  | Rm_destroy_file string
  | Ix_create_index string "ColMeta list"
  | Ix_open_index string "string list"
  | Ix_close_index IxIndexHandle
  | Ix_destroy_index string "string list"
  | Ix_insert_entry IxIndexHandle bytes Rid
  | New_char int32
  | Delete_char
  | New_IndexMeta

datatype report_line = Separator | Row "string list"

text \<open>
  \<open>db\<close>, \<open>fhs\<close> and \<open>ihs\<close> are the members of \<^verbatim>\<open>SmManager\<close>. The rest is the world:
  the working directory of the process (a path from the directory in which the server
  started), the directories that exist, the content of the metadata file
  \<^verbatim>\<open>DB_META_NAME\<close> of each directory (the sequence of \<^verbatim>\<open>DbMeta\<close> values written to it,
  \<open>[]\<close> for a file of length zero), the record and index files by path, the trace of
  calls, and the lines sent to the report sink. Holding the metadata file apart from
  \<open>files\<close> assumes that no table or index file is called \<^verbatim>\<open>DB_META_NAME\<close>. What the
  source writes to standard output is not modelled.
\<close>

record state =
  db :: DbMeta
  fhs :: "(string \<times> RmFileHandle option) list"
  ihs :: "(string \<times> IxIndexHandle option) list"
  cwd :: "string list"
  dirs :: "string list set"
  meta_file :: "string list \<Rightarrow> DbMeta list option"
  files :: "string list \<Rightarrow> disk_file option"
  trace :: "event list"
  report :: "report_line list"

subsection \<open>How a call ends\<close>

text \<open>
  The exceptions the source throws by name, \<^verbatim>\<open>std::bad_array_new_length\<close> of
  \<^verbatim>\<open>new char[n]\<close> with a negative \<open>n\<close>, and the two failures of the collaborators
  that the specification names. Undefined behaviour is a crash.
\<close>

datatype error =
    DatabaseExistsError string
  | DatabaseNotFoundError string
  | UnixError
  | TableExistsError string
  | TableNotFoundError string
  | ColumnNotFoundError string
  | IndexExistsError string "string list"
  | IndexNotFoundError string "string list"
  | BadArrayNewLength
  | FilesystemFailure
  | Corruption

datatype fault = NullDereference | BufferOverrun

datatype 'a res = Returned 'a | Threw error | Crashed fault

type_synonym 'a action = "state \<Rightarrow> 'a res \<times> state"

definition return :: "'a \<Rightarrow> 'a action" where
  "return a s = (Returned a, s)"

definition throw :: "error \<Rightarrow> 'a action" where
  "throw e s = (Threw e, s)"

definition crash :: "fault \<Rightarrow> 'a action" where
  "crash c s = (Crashed c, s)"

text \<open>Sequencing: what follows a statement runs only if the statement returns.\<close>

definition and_then :: "'a action \<Rightarrow> ('a \<Rightarrow> 'b action) \<Rightarrow> 'b action" where
  "and_then m f s =
     (case m s of
        (Returned a, s') \<Rightarrow> f a s'
      | (Threw e, s') \<Rightarrow> (Threw e, s')
      | (Crashed c, s') \<Rightarrow> (Crashed c, s'))"

definition log :: "event \<Rightarrow> state \<Rightarrow> state" where
  "log e s = s\<lparr>trace := trace s @ [e]\<rparr>"

subsection \<open>What sm\_manager.cpp takes from other files\<close>

text \<open>
  Two functions whose results the source only passes on are parameters of the model:
  \<^verbatim>\<open>IxManager::get_index_name\<close> on a table name and column names, and the
  \<^verbatim>\<open>operator==\<close> of \<^verbatim>\<open>IndexMeta\<close> that \<^verbatim>\<open>drop_index\<close> hands to \<^verbatim>\<open>std::remove_if\<close>.
\<close>

record Env =
  get_index_name :: "string \<Rightarrow> string list \<Rightarrow> string"
  IndexMeta_eq :: "IndexMeta \<Rightarrow> IndexMeta \<Rightarrow> bool"

text \<open>
  Modelled from the spec: \<^verbatim>\<open>IxManager::get_index_name\<close> on \<^verbatim>\<open>ColMeta\<close>s (not under src/); the
  canonical name is "derived deterministically from (table, ordered columnNames)", so
  the overload is the one on names applied to the names of the columns.
\<close>

definition get_index_name_cols :: "Env \<Rightarrow> string \<Rightarrow> ColMeta list \<Rightarrow> string" where
  "get_index_name_cols E tn cols = get_index_name E tn (map cm_name cols)"

text \<open>
  The lookups of the catalog, \<^verbatim>\<open>DbMeta::is_table\<close>, \<^verbatim>\<open>DbMeta::get_table\<close>,
  \<^verbatim>\<open>TabMeta::get_col\<close> and \<^verbatim>\<open>TabMeta::get_index_meta\<close>, are declared in sm\_meta.h, which
  is not under src/.
\<close>

text \<open>Modelled from the spec: \<^verbatim>\<open>DbMeta::is_table\<close> (not under src/), whether the catalog
  has a table of that name.\<close>

definition is_table :: "DbMeta \<Rightarrow> string \<Rightarrow> bool" where
  "is_table meta tn = (map_of (dm_tabs meta) tn \<noteq> None)"

text \<open>Modelled from the spec: \<^verbatim>\<open>DbMeta::get_table\<close> (not under src/); a table that is
  absent is the failure \<open>NotFound\<close>.\<close>

definition get_table :: "string \<Rightarrow> TabMeta action" where
  "get_table tn s =
     (case map_of (dm_tabs (db s)) tn of
        None \<Rightarrow> throw (TableNotFoundError tn) s
      | Some tab \<Rightarrow> return tab s)"

text \<open>Modelled from the spec: \<^verbatim>\<open>TabMeta::get_col\<close> (not under src/) resolves a name
  against the columns of the table, "failing \<open>NotFound\<close> on an unknown column".\<close>

definition get_col :: "TabMeta \<Rightarrow> string \<Rightarrow> ColMeta action" where
  "get_col tab cn s =
     (case find (\<lambda>col. cm_name col = cn) (tm_cols tab) of
        None \<Rightarrow> throw (ColumnNotFoundError cn) s
      | Some col \<Rightarrow> return col s)"

text \<open>Modelled from the spec: \<^verbatim>\<open>TabMeta::get_index_meta\<close> (not under src/); an index is
  identified by its ordered list of column names, and one that is absent is the failure
  \<open>NotFound\<close>.\<close>

definition get_index_meta :: "TabMeta \<Rightarrow> string list \<Rightarrow> IndexMeta action" where
  "get_index_meta tab col_names s =
     (case find (\<lambda>index. map cm_name (im_cols index) = col_names) (tm_indexes tab) of
        None \<Rightarrow> throw (IndexNotFoundError (tm_name tab) col_names) s
      | Some index \<Rightarrow> return index s)"

text \<open>Modelled from the spec: \<^verbatim>\<open>coltype2str\<close> (not under src/); the type tags are INT,
  FLOAT and STRING.\<close>

fun coltype2str :: "ColType \<Rightarrow> string" where
  "coltype2str TYPE_INT = ''INT''"
| "coltype2str TYPE_FLOAT = ''FLOAT''"
| "coltype2str TYPE_STRING = ''STRING''"

text \<open>Modelled from the spec: \<^verbatim>\<open>RecordPrinter::print_separator\<close> (not under src/) appends a
  separator to the report sink, which the caller provides through the context.\<close>

definition printer_print_separator :: "Context option \<Rightarrow> unit action" where
  "printer_print_separator context s =
     (case context of
        None \<Rightarrow> crash NullDereference s
      | Some _ \<Rightarrow> return () (s\<lparr>report := report s @ [Separator]\<rparr>))"

text \<open>Modelled from the spec: \<^verbatim>\<open>RecordPrinter::print_record\<close> (not under src/) appends a row
  to the report sink, which the caller provides through the context.\<close>

definition printer_print_record :: "string list \<Rightarrow> Context option \<Rightarrow> unit action" where
  "printer_print_record row context s =
     (case context of
        None \<Rightarrow> crash NullDereference s
      | Some _ \<Rightarrow> return () (s\<lparr>report := report s @ [Row row]\<rparr>))"

text \<open>
  The record-store collaborator (\<^verbatim>\<open>RmManager\<close>, \<^verbatim>\<open>RmFileHandle\<close>, \<^verbatim>\<open>RmScan\<close>) is not under
  src/. All its names are relative to the working directory, and using a null handle is
  a null dereference.
\<close>

text \<open>Modelled from the spec: \<^verbatim>\<open>RmManager::create_file\<close> (not under src/),
  \<open>Create(name, recordSize)\<close>, makes an empty record file.\<close>

definition rm_create_file :: "string \<Rightarrow> int32 \<Rightarrow> unit action" where
  "rm_create_file fname record_size s =
     return () (log (Rm_create_file fname record_size)
       (s\<lparr>files := (files s)(cwd s @ [fname] \<mapsto> RecFile record_size [])\<rparr>))"

text \<open>Modelled from the spec: \<^verbatim>\<open>RmManager::open_file\<close> (not under src/), \<open>Open(name)\<close>, yields
  a handle and fails on a missing file.\<close>

definition rm_open_file :: "string \<Rightarrow> RmFileHandle action" where
  "rm_open_file fname s =
     (case files s (cwd s @ [fname]) of
        Some (RecFile _ _) \<Rightarrow> return (cwd s @ [fname]) (log (Rm_open_file fname) s)
      | _ \<Rightarrow> throw FilesystemFailure (log (Rm_open_file fname) s))"

text \<open>Modelled from the spec: \<^verbatim>\<open>RmManager::close_file\<close> (not under src/), \<open>Close(handle)\<close>.\<close>

definition rm_close_file :: "RmFileHandle option \<Rightarrow> unit action" where
  "rm_close_file fh s =
     (case fh of
        None \<Rightarrow> crash NullDereference s
      | Some h \<Rightarrow> return () (log (Rm_close_file h) s))"

text \<open>Modelled from the spec: \<^verbatim>\<open>RmManager::destroy_file\<close> (not under src/), \<open>Destroy(name)\<close>,
  removes the record file.\<close>

definition rm_destroy_file :: "string \<Rightarrow> unit action" where
  "rm_destroy_file fname s =
     return () (log (Rm_destroy_file fname) (s\<lparr>files := (files s)(cwd s @ [fname] := None)\<rparr>))"

text \<open>Modelled from the spec: \<^verbatim>\<open>RmScan\<close> (not under src/), \<open>Scan()\<close>, a forward iterator over
  the live records. \<^verbatim>\<open>std::make_unique<RmScan>(fh.get())\<close> with \<^verbatim>\<open>is_end\<close>, \<^verbatim>\<open>next\<close> and
  \<^verbatim>\<open>rid\<close> is the list of the record identifiers that the scan visits.\<close>

definition rm_scan :: "RmFileHandle option \<Rightarrow> Rid list action" where
  "rm_scan fh s =
     (case fh of
        None \<Rightarrow> crash NullDereference s
      | Some h \<Rightarrow>
          (case files s h of
             Some (RecFile _ records) \<Rightarrow> return (map fst records) s
           | _ \<Rightarrow> throw FilesystemFailure s))"

text \<open>Modelled from the spec: \<^verbatim>\<open>RmFileHandle::get_record\<close> (not under src/),
  \<open>Get(recordId)\<close>, yields the bytes of one record.\<close>

definition get_record :: "RmFileHandle option \<Rightarrow> Rid \<Rightarrow> Context option \<Rightarrow> bytes action" where
  "get_record fh rid context s =
     (case fh of
        None \<Rightarrow> crash NullDereference s
      | Some h \<Rightarrow>
          (case files s h of
             Some (RecFile _ records) \<Rightarrow>
               (case map_of records rid of
                  None \<Rightarrow> throw FilesystemFailure s
                | Some data \<Rightarrow> return data s)
           | _ \<Rightarrow> throw FilesystemFailure s))"

text \<open>
  The index-store collaborator (\<^verbatim>\<open>IxManager\<close>, \<^verbatim>\<open>IxIndexHandle\<close>) is not under src/. Its
  files lie in the working directory under the canonical names of the indexes.
\<close>

text \<open>Modelled from the spec: \<^verbatim>\<open>IxManager::create_index\<close> (not under src/),
  \<open>Create(table, columnMetas)\<close>, makes an empty index under the canonical name.\<close>

definition ix_create_index :: "Env \<Rightarrow> string \<Rightarrow> ColMeta list \<Rightarrow> unit action" where
  "ix_create_index E tn cols s =
     return () (log (Ix_create_index tn cols)
       (s\<lparr>files := (files s)(cwd s @ [get_index_name_cols E tn cols] \<mapsto> IxFile cols [])\<rparr>))"

text \<open>Modelled from the spec: \<^verbatim>\<open>IxManager::open_index\<close> on column names (not under src/),
  \<open>Open(table, columnNames)\<close>, yields a handle on the index of that canonical name and
  fails on a missing file.\<close>

definition ix_open_index :: "Env \<Rightarrow> string \<Rightarrow> string list \<Rightarrow> IxIndexHandle action" where
  "ix_open_index E tn col_names s =
     (case files s (cwd s @ [get_index_name E tn col_names]) of
        Some (IxFile _ _) \<Rightarrow>
          return (cwd s @ [get_index_name E tn col_names]) (log (Ix_open_index tn col_names) s)
      | _ \<Rightarrow> throw FilesystemFailure (log (Ix_open_index tn col_names) s))"

text \<open>Modelled from the spec: \<^verbatim>\<open>IxManager::open_index\<close> on \<^verbatim>\<open>ColMeta\<close>s (not under src/), the
  same on the names of the columns.\<close>

definition ix_open_index_cols :: "Env \<Rightarrow> string \<Rightarrow> ColMeta list \<Rightarrow> IxIndexHandle action" where
  "ix_open_index_cols E tn cols = ix_open_index E tn (map cm_name cols)"

text \<open>Modelled from the spec: \<^verbatim>\<open>IxManager::close_index\<close> (not under src/); a null handle is
  a null dereference.\<close>

definition ix_close_index :: "IxIndexHandle option \<Rightarrow> unit action" where
  "ix_close_index ih s =
     (case ih of
        None \<Rightarrow> crash NullDereference s
      | Some h \<Rightarrow> return () (log (Ix_close_index h) s))"

text \<open>Modelled from the spec: \<^verbatim>\<open>IxManager::destroy_index\<close> on column names (not under src/),
  \<open>Destroy(table, columnNames)\<close>, removes the index of that canonical name.\<close>

definition ix_destroy_index :: "Env \<Rightarrow> string \<Rightarrow> string list \<Rightarrow> unit action" where
  "ix_destroy_index E tn col_names s =
     return () (log (Ix_destroy_index tn col_names)
       (s\<lparr>files := (files s)(cwd s @ [get_index_name E tn col_names] := None)\<rparr>))"

text \<open>Modelled from the spec: \<^verbatim>\<open>IxManager::destroy_index\<close> on \<^verbatim>\<open>ColMeta\<close>s (not under src/),
  the same on the names of the columns.\<close>

definition ix_destroy_index_cols :: "Env \<Rightarrow> string \<Rightarrow> ColMeta list \<Rightarrow> unit action" where
  "ix_destroy_index_cols E tn cols = ix_destroy_index E tn (map cm_name cols)"

text \<open>The answer of \<^verbatim>\<open>insert_entry\<close>, which the source compares with \<^verbatim>\<open>IX_NO_PAGE\<close>.\<close>

datatype page_answer = IX_NO_PAGE | IX_PAGE

text \<open>Modelled from the spec: \<^verbatim>\<open>IxIndexHandle::insert_entry\<close> (not under src/),
  \<open>handle.Insert(keyBytes, recordId, txnContext)\<close>, answers "duplicate"
  (\<^verbatim>\<open>IX_NO_PAGE\<close>) when the key is already in the index and adds the entry otherwise.\<close>

definition insert_entry :: "IxIndexHandle \<Rightarrow> bytes \<Rightarrow> Rid \<Rightarrow> nat option \<Rightarrow> page_answer action" where
  "insert_entry ih key rid transaction s =
     (case files s ih of
        Some (IxFile cols entries) \<Rightarrow>
          (if key \<in> set (map fst entries)
           then return IX_NO_PAGE (log (Ix_insert_entry ih key rid) s)
           else return IX_PAGE (log (Ix_insert_entry ih key rid)
                  (s\<lparr>files := (files s)(ih \<mapsto> IxFile cols (entries @ [(key, rid)]))\<rparr>)))
      | _ \<Rightarrow> throw FilesystemFailure (log (Ix_insert_entry ih key rid) s))"

text \<open>\<^verbatim>\<open>SmManager::is_dir\<close> (lines 27 to 30): \<^verbatim>\<open>stat\<close> on the name, relative to the working
  directory, and \<^verbatim>\<open>S_ISDIR\<close>.\<close>

definition is_dir :: "string \<Rightarrow> state \<Rightarrow> bool" where
  "is_dir db_name s = (cwd s @ [db_name] \<in> dirs s)"

text \<open>
  The file system as the source uses it: \<^verbatim>\<open>chdir\<close> (to a directory of the working
  directory or to \<^verbatim>\<open>".."\<close>), and the output stream on the metadata file:
  \<^verbatim>\<open>std::ofstream ofs(DB_META_NAME)\<close> creates the file or cuts it to length zero, and
  \<^verbatim>\<open>ofs << db_\<close> writes one \<^verbatim>\<open>DbMeta\<close>.
\<close>

definition chdir :: "string \<Rightarrow> state \<Rightarrow> int \<times> state" where
  "chdir path s =
     (if path = ''..'' then (0, s\<lparr>cwd := butlast (cwd s)\<rparr>)
      else if cwd s @ [path] \<in> dirs s then (0, s\<lparr>cwd := cwd s @ [path]\<rparr>)
      else (- 1, s))"

definition ofstream_open :: "state \<Rightarrow> state" where
  "ofstream_open s = s\<lparr>meta_file := (meta_file s)(cwd s \<mapsto> [])\<rparr>"

definition ofstream_put :: "DbMeta \<Rightarrow> state \<Rightarrow> state" where
  "ofstream_put meta s =
     (case meta_file s (cwd s) of
        None \<Rightarrow> s
      | Some content \<Rightarrow> s\<lparr>meta_file := (meta_file s)(cwd s \<mapsto> content @ [meta])\<rparr>)"

text \<open>Modelled from the spec: \<^verbatim>\<open>DiskManager::is_file\<close> (not under src/), whether a file of
  that name exists in the working directory.\<close>

definition is_file :: "string \<Rightarrow> state \<Rightarrow> bool" where
  "is_file fname s = (files s (cwd s @ [fname]) \<noteq> None)"

text \<open>
  Modelled from the spec: the \<^verbatim>\<open>operator>>\<close> of \<^verbatim>\<open>DbMeta\<close> (not under src/), \<^verbatim>\<open>ifs >> db_\<close>;
  \<open>Load\<close> "deserializes the file into an equivalent structure" and a malformed file
  is \<open>Corruption\<close>.
\<close>

definition ifstream_get :: "DbMeta list \<Rightarrow> unit action" where
  "ifstream_get content s =
     (case content of
        [] \<Rightarrow> throw Corruption s
      | meta # _ \<Rightarrow> return () (s\<lparr>db := meta\<rparr>))"

text \<open>
  The heap: \<^verbatim>\<open>new char[n]\<close> (the new array is modelled as \<open>n\<close> zero bytes; a negative
  \<open>n\<close> is \<^verbatim>\<open>std::bad_array_new_length\<close>), \<^verbatim>\<open>delete []key\<close> and \<^verbatim>\<open>new IndexMeta()\<close>.
  \<^verbatim>\<open>memcpy(dst + doff, src + soff, n)\<close> on arrays whose lengths are known: outside of
  either array it is undefined behaviour, \<open>None\<close> here.
\<close>

definition new_char :: "int32 \<Rightarrow> bytes action" where
  "new_char n s =
     (if sint n < 0 then throw BadArrayNewLength s
      else return (replicate (nat (sint n)) 0) (log (New_char n) s))"

definition delete_char :: "unit action" where
  "delete_char s = return () (log Delete_char s)"

definition new_IndexMeta :: "unit action" where
  "new_IndexMeta s = return () (log New_IndexMeta s)"

definition memcpy :: "bytes \<Rightarrow> int32 \<Rightarrow> bytes \<Rightarrow> int32 \<Rightarrow> int32 \<Rightarrow> bytes option" where
  "memcpy dst doff src soff n =
     (if 0 \<le> sint doff \<and> 0 \<le> sint soff \<and> 0 \<le> sint n
         \<and> sint doff + sint n \<le> int (length dst) \<and> sint soff + sint n \<le> int (length src)
      then Some (take (nat (sint doff)) dst
                 @ take (nat (sint n)) (drop (nat (sint soff)) src)
                 @ drop (nat (sint doff + sint n)) dst)
      else None)"

subsection \<open>The member functions of \<^verbatim>\<open>SmManager\<close>\<close>

text \<open>A statement that only assigns to members.\<close>

definition update :: "(state \<Rightarrow> state) \<Rightarrow> unit action" where
  "update f s = return () (f s)"

text \<open>\<^verbatim>\<open>fhs_[k]\<close> and \<^verbatim>\<open>ihs_[k]\<close> as expressions.\<close>

definition fhs_subscript :: "string \<Rightarrow> RmFileHandle option action" where
  "fhs_subscript k s = (case subscript k (fhs s) of (h, m) \<Rightarrow> return h (s\<lparr>fhs := m\<rparr>))"

definition ihs_subscript :: "string \<Rightarrow> IxIndexHandle option action" where
  "ihs_subscript k s = (case subscript k (ihs s) of (h, m) \<Rightarrow> return h (s\<lparr>ihs := m\<rparr>))"

text \<open>\<^verbatim>\<open>flush_meta\<close> (lines 139 to 143).\<close>

definition flush_meta :: "unit action" where
  "flush_meta s = return () (ofstream_put (db s) (ofstream_open s))"

text \<open>\<^verbatim>\<open>open_db\<close> (lines 78 to 120): the loop over the indexes of a table, the loop over
  \<^verbatim>\<open>db_.tabs_\<close>, and the function.\<close>

fun open_indexes :: "Env \<Rightarrow> TabMeta \<Rightarrow> IndexMeta list \<Rightarrow> unit action" where
  "open_indexes E tab [] = return ()"
| "open_indexes E tab (index # rest) =
     (let index_name = get_index_name_cols E (tm_name tab) (im_cols index) in
      and_then (ix_open_index_cols E index_name (im_cols index)) (\<lambda>ih.
      and_then (update (\<lambda>s. s\<lparr>ihs := emplace (tm_name tab) (Some ih) (ihs s)\<rparr>)) (\<lambda>_.
      open_indexes E tab rest)))"

fun open_tables :: "Env \<Rightarrow> (string \<times> TabMeta) list \<Rightarrow> unit action" where
  "open_tables E [] = return ()"
| "open_tables E (entry # rest) =
     (let tab = snd entry in
      and_then (rm_open_file (tm_name tab)) (\<lambda>fh.
      and_then (update (\<lambda>s. s\<lparr>fhs := emplace (tm_name tab) (Some fh) (fhs s)\<rparr>)) (\<lambda>_.
      and_then (open_indexes E tab (tm_indexes tab)) (\<lambda>_.
      open_tables E rest))))"

definition open_db :: "Env \<Rightarrow> string \<Rightarrow> unit action" where
  "open_db E db_name s =
     (if \<not> is_dir db_name s then throw (DatabaseNotFoundError db_name) s
      else if dm_name (db s) \<noteq> [] then throw (DatabaseExistsError db_name) s
      else
        (case chdir db_name s of
           (r, s1) \<Rightarrow>
             if r < 0 then throw UnixError s1
             else
               (case meta_file s1 (cwd s1) of
                  None \<Rightarrow> throw UnixError s1
                | Some content \<Rightarrow>
                    and_then (ifstream_get content) (\<lambda>_ s2.
                    open_tables E (dm_tabs (db s2)) s2) s1)))"

text \<open>\<^verbatim>\<open>close_db\<close> (lines 148 to 173), with its two loops over the registries.\<close>

fun close_files :: "(string \<times> RmFileHandle option) list \<Rightarrow> unit action" where
  "close_files [] = return ()"
| "close_files (entry # rest) = and_then (rm_close_file (snd entry)) (\<lambda>_. close_files rest)"

fun close_indexes :: "(string \<times> IxIndexHandle option) list \<Rightarrow> unit action" where
  "close_indexes [] = return ()"
| "close_indexes (entry # rest) = and_then (ix_close_index (snd entry)) (\<lambda>_. close_indexes rest)"

definition close_db :: "unit action" where
  "close_db =
     and_then flush_meta (\<lambda>_.
     and_then (update ofstream_open) (\<lambda>_.
     and_then (update (\<lambda>s. s\<lparr>db := (db s)\<lparr>dm_name := []\<rparr>\<rparr>)) (\<lambda>_.
     and_then (update (\<lambda>s. s\<lparr>db := (db s)\<lparr>dm_tabs := []\<rparr>\<rparr>)) (\<lambda>_.
     and_then (\<lambda>s. close_files (fhs s) s) (\<lambda>_.
     and_then (update (\<lambda>s. s\<lparr>fhs := []\<rparr>)) (\<lambda>_.
     and_then (\<lambda>s. close_indexes (ihs s) s) (\<lambda>_.
     and_then (update (\<lambda>s. s\<lparr>ihs := []\<rparr>)) (\<lambda>_.
     (\<lambda>s. case chdir ''..'' s of
            (r, s') \<Rightarrow> if r < 0 then throw UnixError s' else return () s')))))))))"

text \<open>\<^verbatim>\<open>desc_table\<close> (lines 202 to 218).\<close>

fun print_fields :: "ColMeta list \<Rightarrow> Context option \<Rightarrow> unit action" where
  "print_fields [] context = return ()"
| "print_fields (col # rest) context =
     (let field_info = [cm_name col, coltype2str (cm_type col), if cm_index col then ''YES'' else ''NO''] in
      and_then (printer_print_record field_info context) (\<lambda>_. print_fields rest context))"

definition desc_table :: "string \<Rightarrow> Context option \<Rightarrow> unit action" where
  "desc_table tab_name context =
     and_then (get_table tab_name) (\<lambda>tab.
     let captions = [''Field'', ''Type'', ''Index''] in
     and_then (printer_print_separator context) (\<lambda>_.
     and_then (printer_print_record captions context) (\<lambda>_.
     and_then (printer_print_separator context) (\<lambda>_.
     and_then (print_fields (tm_cols tab) context) (\<lambda>_.
     printer_print_separator context)))))"

text \<open>
  \<^verbatim>\<open>create_table\<close> (lines 226 to 253). \<open>layout_cols\<close> is the loop over \<^verbatim>\<open>col_defs\<close>; its
  arguments are the rest of \<^verbatim>\<open>col_defs\<close>, \<^verbatim>\<open>curr_offset\<close> and \<^verbatim>\<open>tab.cols\<close>.
\<close>

fun layout_cols :: "string \<Rightarrow> ColDef list \<Rightarrow> int32 \<Rightarrow> ColMeta list \<Rightarrow> ColMeta list \<times> int32" where
  "layout_cols tab_name [] curr_offset cols = (cols, curr_offset)"
| "layout_cols tab_name (col_def # rest) curr_offset cols =
     (let col = \<lparr>cm_tab_name = tab_name, cm_name = cd_name col_def, cm_type = cd_type col_def,
                 cm_len = cd_len col_def, cm_offset = curr_offset, cm_index = False\<rparr>
      in layout_cols tab_name rest (curr_offset + cd_len col_def) (cols @ [col]))"

definition create_table :: "string \<Rightarrow> ColDef list \<Rightarrow> Context option \<Rightarrow> unit action" where
  "create_table tab_name col_defs context s =
     (if is_table (db s) tab_name then throw (TableExistsError tab_name) s
      else
        (case layout_cols tab_name col_defs 0 [] of
           (cols, curr_offset) \<Rightarrow>
             (let tab = \<lparr>tm_name = tab_name, tm_cols = cols, tm_indexes = []\<rparr>;
                  record_size = curr_offset
              in and_then (rm_create_file tab_name record_size) (\<lambda>_.
                 and_then (update (\<lambda>s. s\<lparr>db := (db s)\<lparr>dm_tabs := map_assign tab_name tab (dm_tabs (db s))\<rparr>\<rparr>)) (\<lambda>_.
                 and_then (rm_open_file tab_name) (\<lambda>fh.
                 and_then (update (\<lambda>s. s\<lparr>fhs := emplace tab_name (Some fh) (fhs s)\<rparr>)) (\<lambda>_.
                 flush_meta)))) s)))"

text \<open>\<^verbatim>\<open>drop_table\<close> (lines 260 to 274), with its loop over \<^verbatim>\<open>tab.indexes\<close>.\<close>

fun drop_indexes :: "Env \<Rightarrow> string \<Rightarrow> IndexMeta list \<Rightarrow> unit action" where
  "drop_indexes E tab_name [] = return ()"
| "drop_indexes E tab_name (index # rest) =
     (let index_name = get_index_name_cols E tab_name (im_cols index) in
      and_then (ihs_subscript index_name) (\<lambda>ih.
      and_then (ix_close_index ih) (\<lambda>_.
      and_then (ix_destroy_index_cols E tab_name (im_cols index)) (\<lambda>_.
      and_then (update (\<lambda>s. s\<lparr>ihs := erase index_name (ihs s)\<rparr>)) (\<lambda>_.
      drop_indexes E tab_name rest)))))"

definition drop_table :: "Env \<Rightarrow> string \<Rightarrow> Context option \<Rightarrow> unit action" where
  "drop_table E tab_name context =
     and_then (get_table tab_name) (\<lambda>tab.
     and_then (fhs_subscript tab_name) (\<lambda>fh.
     and_then (rm_close_file fh) (\<lambda>_.
     and_then (rm_destroy_file tab_name) (\<lambda>_.
     and_then (drop_indexes E tab_name (tm_indexes tab)) (\<lambda>_.
     and_then (update (\<lambda>s. s\<lparr>db := (db s)\<lparr>dm_tabs := erase tab_name (dm_tabs (db s))\<rparr>\<rparr>)) (\<lambda>_.
     and_then (update (\<lambda>s. s\<lparr>fhs := erase tab_name (fhs s)\<rparr>)) (\<lambda>_.
     flush_meta)))))))"

text \<open>
  \<^verbatim>\<open>create_index\<close> (lines 282 to 345). \<open>resolve_cols\<close> is the loop over \<^verbatim>\<open>col_names\<close>
  (lines 299 to 302), \<open>copy_cols\<close> the loop over \<^verbatim>\<open>col_metas\<close> that fills the key
  (lines 314 to 317), \<open>build_index\<close> the loop of the scan (lines 310 to 328), whose
  result says whether the function has returned from inside the loop. The table
  \<^verbatim>\<open>table_meta\<close> is a reference into \<^verbatim>\<open>db_.tabs_\<close>, so \<^verbatim>\<open>push_back\<close> on its indexes writes
  into the catalog.
\<close>

fun resolve_cols :: "TabMeta \<Rightarrow> string list \<Rightarrow> ColMeta list \<Rightarrow> int32 \<Rightarrow> (ColMeta list \<times> int32) action" where
  "resolve_cols table_meta [] col_metas total_len = return (col_metas, total_len)"
| "resolve_cols table_meta (col_name # rest) col_metas total_len =
     and_then (get_col table_meta col_name) (\<lambda>col.
     resolve_cols table_meta rest (col_metas @ [col]) (total_len + cm_len col))"

fun copy_cols :: "ColMeta list \<Rightarrow> bytes \<Rightarrow> bytes \<Rightarrow> int32 \<Rightarrow> bytes action" where
  "copy_cols [] data key offset = return key"
| "copy_cols (col_meta # rest) data key offset =
     (case memcpy key offset data (cm_offset col_meta) (cm_len col_meta) of
        None \<Rightarrow> crash BufferOverrun
      | Some key' \<Rightarrow> copy_cols rest data key' (offset + cm_len col_meta))"

fun build_index ::
  "Env \<Rightarrow> string \<Rightarrow> string list \<Rightarrow> ColMeta list \<Rightarrow> IxIndexHandle \<Rightarrow> RmFileHandle option
     \<Rightarrow> Context option \<Rightarrow> Rid list \<Rightarrow> bytes \<Rightarrow> bool action" where
  "build_index E tab_name col_names col_metas ih fh context [] key = return False"
| "build_index E tab_name col_names col_metas ih fh context (rid # rest) key =
     and_then (get_record fh rid context) (\<lambda>data.
     and_then (copy_cols col_metas data key 0) (\<lambda>key'.
     (case context of
        None \<Rightarrow> crash NullDereference
      | Some ctx \<Rightarrow>
          and_then (insert_entry ih key' rid (txn ctx)) (\<lambda>answer.
          if answer = IX_NO_PAGE then
            and_then delete_char (\<lambda>_.
            and_then (ix_close_index (Some ih)) (\<lambda>_.
            and_then (ix_destroy_index E tab_name col_names) (\<lambda>_.
            return True)))
          else build_index E tab_name col_names col_metas ih fh context rest key'))))"

text \<open>The statements after the loop of the scan (lines 329 to 343).\<close>

definition finish_index ::
  "Env \<Rightarrow> string \<Rightarrow> string list \<Rightarrow> ColMeta list \<Rightarrow> int32 \<Rightarrow> IxIndexHandle \<Rightarrow> unit action" where
  "finish_index E tab_name col_names col_metas total_len ih =
     (let ix_name = get_index_name E tab_name col_names in
      and_then delete_char (\<lambda>_.
      and_then new_IndexMeta (\<lambda>_.
      let index_meta = \<lparr>im_tab_name = tab_name, im_col_tot_len = total_len,
                        im_col_num = of_nat (length col_names), im_cols = col_metas\<rparr> in
      and_then (update (\<lambda>s. s\<lparr>db := (db s)\<lparr>dm_tabs :=
                  modify tab_name (\<lambda>t. t\<lparr>tm_indexes := tm_indexes t @ [index_meta]\<rparr>) (dm_tabs (db s))\<rparr>\<rparr>)) (\<lambda>_.
      and_then (update (\<lambda>s. s\<lparr>ihs := store ix_name (Some ih) (ihs s)\<rparr>)) (\<lambda>_.
      flush_meta)))))"

definition create_index :: "Env \<Rightarrow> string \<Rightarrow> string list \<Rightarrow> Context option \<Rightarrow> unit action" where
  "create_index E tab_name col_names context s =
     (let ix_name = get_index_name E tab_name col_names in
      if is_file ix_name s then throw (IndexExistsError tab_name col_names) s
      else
        (and_then (get_table tab_name) (\<lambda>table_meta.
         and_then (resolve_cols table_meta col_names [] 0) (\<lambda>(col_metas, total_len).
         and_then (ix_create_index E tab_name col_metas) (\<lambda>_.
         and_then (ix_open_index E tab_name col_names) (\<lambda>ih.
         and_then (fhs_subscript tab_name) (\<lambda>fh.
         and_then (new_char total_len) (\<lambda>key.
         and_then (rm_scan fh) (\<lambda>rids.
         and_then (build_index E tab_name col_names col_metas ih fh context rids key) (\<lambda>returned.
         if returned then return ()
         else finish_index E tab_name col_names col_metas total_len ih))))))))) s)"

text \<open>
  \<^verbatim>\<open>drop_index\<close> on column names (lines 355 to 382) and on \<^verbatim>\<open>ColMeta\<close>s (lines 390 to
  422). \<open>remove_index\<close> is the \<^verbatim>\<open>erase\<close> of \<^verbatim>\<open>std::remove_if\<close> on \<^verbatim>\<open>table_meta.indexes\<close>.
\<close>

definition remove_index :: "Env \<Rightarrow> string \<Rightarrow> IndexMeta \<Rightarrow> unit action" where
  "remove_index E tab_name index =
     update (\<lambda>s. s\<lparr>db := (db s)\<lparr>dm_tabs :=
       modify tab_name (\<lambda>t. t\<lparr>tm_indexes := filter (\<lambda>idx. \<not> IndexMeta_eq E idx index) (tm_indexes t)\<rparr>)
         (dm_tabs (db s))\<rparr>\<rparr>)"

definition drop_index :: "Env \<Rightarrow> string \<Rightarrow> string list \<Rightarrow> Context option \<Rightarrow> unit action" where
  "drop_index E tab_name col_names context =
     and_then (get_table tab_name) (\<lambda>table_meta.
     let ix_name = get_index_name E tab_name col_names in
     (\<lambda>s. if \<not> is_file ix_name s then throw (IndexNotFoundError tab_name col_names) s
          else
            (and_then (ihs_subscript ix_name) (\<lambda>ih.
             and_then (ix_close_index ih) (\<lambda>_.
             and_then (ix_destroy_index E tab_name col_names) (\<lambda>_.
             and_then (update (\<lambda>s. s\<lparr>ihs := erase ix_name (ihs s)\<rparr>)) (\<lambda>_.
             and_then (get_index_meta table_meta col_names) (\<lambda>index.
             and_then (remove_index E tab_name index) (\<lambda>_.
             flush_meta))))))) s))"

definition drop_index_cols :: "Env \<Rightarrow> string \<Rightarrow> ColMeta list \<Rightarrow> Context option \<Rightarrow> unit action" where
  "drop_index_cols E tab_name cols context =
     and_then (get_table tab_name) (\<lambda>table_meta.
     let ix_name = get_index_name_cols E tab_name cols;
         col_names = map cm_name cols in
     (\<lambda>s. if \<not> is_file ix_name s then throw (IndexNotFoundError tab_name col_names) s
          else
            (and_then (ihs_subscript ix_name) (\<lambda>ih.
             and_then (ix_close_index ih) (\<lambda>_.
             and_then (ix_destroy_index_cols E tab_name cols) (\<lambda>_.
             and_then (update (\<lambda>s. s\<lparr>ihs := erase ix_name (ihs s)\<rparr>)) (\<lambda>_.
             and_then (get_index_meta table_meta col_names) (\<lambda>index.
             and_then (remove_index E tab_name index) (\<lambda>_.
             flush_meta))))))) s))"

subsection \<open>Predicates and example states used below\<close>

text \<open>
  Column lengths whose sums stay within \<^verbatim>\<open>int\<close>: none is negative and the total is below
  \<open>2 ^ 31\<close>. For them the sums of the source are the sums of the integers.
\<close>

definition lens_fit :: "int32 list \<Rightarrow> bool" where
  "lens_fit lens = (list_all (\<lambda>n. 0 \<le> sint n) lens \<and> sum_list (map sint lens) < 2 ^ 31)"

text \<open>An open database \<^verbatim>\<open>db\<close> without tables, as \<^verbatim>\<open>create_db\<close> and \<^verbatim>\<open>open_db\<close> leave it.\<close>

definition ex_db_empty :: state where
  "ex_db_empty =
     \<lparr>db = \<lparr>dm_name = ''db'', dm_tabs = []\<rparr>, fhs = [], ihs = [], cwd = [''db''],
      dirs = {[''db'']}, meta_file = [[''db''] \<mapsto> [\<lparr>dm_name = ''db'', dm_tabs = []\<rparr>]],
      files = Map.empty, trace = [], report = []\<rparr>"

text \<open>
  An environment for the examples: the canonical name of an index is the table name,
  an underscore and a column name for each column, and \<^verbatim>\<open>.idx\<close>; two \<^verbatim>\<open>IndexMeta\<close>s are
  equal when all their fields are.
\<close>

definition ex_env :: Env where
  "ex_env = \<lparr>get_index_name = (\<lambda>tn cns. tn @ concat (map (\<lambda>cn. CHR ''_'' # cn) cns) @ ''.idx''),
             IndexMeta_eq = (=)\<rparr>"

text \<open>
  The table \<^verbatim>\<open>t\<close> of the specification's example, with columns \<open>a\<close> (INT, 4 bytes) and
  \<open>b\<close> (CHAR, 8 bytes), an index on \<open>a\<close>, and two records that differ in \<open>a\<close>.
\<close>

definition ex_col_a :: ColMeta where
  "ex_col_a = \<lparr>cm_tab_name = ''t'', cm_name = ''a'', cm_type = TYPE_INT, cm_len = 4,
               cm_offset = 0, cm_index = False\<rparr>"

definition ex_col_b :: ColMeta where
  "ex_col_b = \<lparr>cm_tab_name = ''t'', cm_name = ''b'', cm_type = TYPE_STRING, cm_len = 8,
               cm_offset = 4, cm_index = False\<rparr>"

definition ex_index_a :: IndexMeta where
  "ex_index_a = \<lparr>im_tab_name = ''t'', im_col_tot_len = 4, im_col_num = 1, im_cols = [ex_col_a]\<rparr>"

definition ex_tab :: TabMeta where
  "ex_tab = \<lparr>tm_name = ''t'', tm_cols = [ex_col_a, ex_col_b], tm_indexes = []\<rparr>"

definition ex_tab_indexed :: TabMeta where
  "ex_tab_indexed = \<lparr>tm_name = ''t'', tm_cols = [ex_col_a, ex_col_b], tm_indexes = [ex_index_a]\<rparr>"

definition ex_rid1 :: Rid where
  "ex_rid1 = \<lparr>page_no = 1, slot_no = 0\<rparr>"

definition ex_rid2 :: Rid where
  "ex_rid2 = \<lparr>page_no = 1, slot_no = 1\<rparr>"

definition ex_rec1 :: bytes where
  "ex_rec1 = [1, 0, 0, 0, 120, 120, 120, 120, 120, 120, 120, 120]"

definition ex_rec2 :: bytes where
  "ex_rec2 = [2, 0, 0, 0, 120, 120, 120, 120, 120, 120, 120, 120]"

definition ex_records :: "(Rid \<times> bytes) list" where
  "ex_records = [(ex_rid1, ex_rec1), (ex_rid2, ex_rec2)]"

text \<open>The database \<^verbatim>\<open>db\<close> open, holding the table \<^verbatim>\<open>t\<close> and no index.\<close>

definition ex_db_t :: state where
  "ex_db_t =
     \<lparr>db = \<lparr>dm_name = ''db'', dm_tabs = [(''t'', ex_tab)]\<rparr>,
      fhs = [(''t'', Some [''db'', ''t''])], ihs = [], cwd = [''db''], dirs = {[''db'']},
      meta_file = [[''db''] \<mapsto> [\<lparr>dm_name = ''db'', dm_tabs = [(''t'', ex_tab)]\<rparr>]],
      files = [[''db'', ''t''] \<mapsto> RecFile 12 ex_records], trace = [], report = []\<rparr>"

text \<open>The same with the index on \<open>a\<close>, as a successful \<^verbatim>\<open>create_index\<close> leaves it.\<close>

definition ex_db_t_indexed :: state where
  "ex_db_t_indexed =
     \<lparr>db = \<lparr>dm_name = ''db'', dm_tabs = [(''t'', ex_tab_indexed)]\<rparr>,
      fhs = [(''t'', Some [''db'', ''t''])], ihs = [(''t_a.idx'', Some [''db'', ''t_a.idx''])],
      cwd = [''db''], dirs = {[''db'']},
      meta_file = [[''db''] \<mapsto> [\<lparr>dm_name = ''db'', dm_tabs = [(''t'', ex_tab_indexed)]\<rparr>]],
      files = [[''db'', ''t''] \<mapsto> RecFile 12 ex_records,
               [''db'', ''t_a.idx''] \<mapsto> IxFile [ex_col_a]
                  [([1, 0, 0, 0], ex_rid1), ([2, 0, 0, 0], ex_rid2)]],
      trace = [], report = []\<rparr>"

text \<open>
  No database open, and on disk the database \<^verbatim>\<open>db\<close> with the catalog, the record file
  and the index file of \<open>ex_db_t_indexed\<close>: what a process leaves that ends after a
  successful \<^verbatim>\<open>create_index\<close> without calling \<^verbatim>\<open>close_db\<close>.
\<close>

definition ex_closed_indexed :: state where
  "ex_closed_indexed =
     \<lparr>db = \<lparr>dm_name = [], dm_tabs = []\<rparr>, fhs = [], ihs = [], cwd = [], dirs = {[''db'']},
      meta_file = [[''db''] \<mapsto> [\<lparr>dm_name = ''db'', dm_tabs = [(''t'', ex_tab_indexed)]\<rparr>]],
      files = [[''db'', ''t''] \<mapsto> RecFile 12 ex_records,
               [''db'', ''t_a.idx''] \<mapsto> IxFile [ex_col_a]
                  [([1, 0, 0, 0], ex_rid1), ([2, 0, 0, 0], ex_rid2)]],
      trace = [], report = []\<rparr>"

text \<open>
  The composite key of a record for a list of columns: the byte ranges of the columns,
  one after the other. \<open>col_within data col\<close> says that the byte range of \<open>col\<close> lies
  within the record \<open>data\<close>.
\<close>

definition composite_key :: "ColMeta list \<Rightarrow> bytes \<Rightarrow> bytes" where
  "composite_key cols data =
     concat (map (\<lambda>col. take (nat (sint (cm_len col))) (drop (nat (sint (cm_offset col))) data)) cols)"

definition col_within :: "bytes \<Rightarrow> ColMeta \<Rightarrow> bool" where
  "col_within data col =
     (0 \<le> sint (cm_offset col) \<and> 0 \<le> sint (cm_len col)
      \<and> sint (cm_offset col) + sint (cm_len col) \<le> int (length data))"

text \<open>
  What \<^verbatim>\<open>create_index\<close> needs to reach the end of its scan: no file under the canonical
  name, the table in the catalog, every column name resolved (to \<open>col_metas\<close>, in
  order), key lengths that fit, the record file of the table open under the table name,
  holding \<open>records\<close> with distinct identifiers, and every key column within every record.
\<close>

definition index_buildable ::
  "Env \<Rightarrow> string \<Rightarrow> string list \<Rightarrow> state \<Rightarrow> ColMeta list \<Rightarrow> RmFileHandle \<Rightarrow> (Rid \<times> bytes) list \<Rightarrow> bool" where
  "index_buildable E tab_name col_names s col_metas fh records =
     (\<not> is_file (get_index_name E tab_name col_names) s
      \<and> (case map_of (dm_tabs (db s)) tab_name of
           None \<Rightarrow> False
         | Some table_meta \<Rightarrow>
             those (map (\<lambda>col_name. find (\<lambda>col. cm_name col = col_name) (tm_cols table_meta)) col_names)
               = Some col_metas)
      \<and> lens_fit (map cm_len col_metas)
      \<and> map_of (fhs s) tab_name = Some (Some fh)
      \<and> (case files s fh of Some (RecFile _ rs) \<Rightarrow> rs = records | _ \<Rightarrow> False)
      \<and> distinct (map fst records)
      \<and> list_all (\<lambda>r. list_all (col_within (snd r)) col_metas) records)"

text \<open>The columns of every table, and an action that leaves a view of the state as it is.\<close>

definition cols_of :: "state \<Rightarrow> (string \<times> ColMeta list) list" where
  "cols_of s = map (\<lambda>(k, t). (k, tm_cols t)) (dm_tabs (db s))"

definition keeps :: "(state \<Rightarrow> 'v) \<Rightarrow> 'a action \<Rightarrow> bool" where
  "keeps view m = (\<forall>s. view (snd (m s)) = view s)"

text \<open>
  The state during the scan of \<^verbatim>\<open>create_index\<close> started in \<open>s\<close>: the index file under the
  handle \<open>ih\<close> holds the entries \<open>es\<close>, and the trace is \<open>tr\<close>.
\<close>

definition building :: "state \<Rightarrow> IxIndexHandle \<Rightarrow> ColMeta list \<Rightarrow> (bytes \<times> Rid) list \<Rightarrow> event list \<Rightarrow> state" where
  "building s ih cms es tr = s\<lparr>files := (files s)(ih \<mapsto> IxFile cms es), trace := tr\<rparr>"

text \<open>
  For \<^verbatim>\<open>drop_table\<close>: the canonical names of the indexes of a table; a registry entry that
  holds a handle; what \<^verbatim>\<open>drop_table\<close> needs to return (the table in the catalog, its record
  file and every one of its indexes open under its name, the canonical names distinct);
  the calls that the loop over the indexes is expected to make; and the state after that
  loop has closed and destroyed the indexes \<open>names\<close> with the calls \<open>evs\<close>.
\<close>

definition index_names :: "Env \<Rightarrow> string \<Rightarrow> IndexMeta list \<Rightarrow> string list" where
  "index_names E tab_name ixs = map (\<lambda>index. get_index_name_cols E tab_name (im_cols index)) ixs"

definition holds_handle :: "(string \<times> 'h option) list \<Rightarrow> string \<Rightarrow> bool" where
  "holds_handle m k = (case map_of m k of Some (Some _) \<Rightarrow> True | _ \<Rightarrow> False)"

definition droppable :: "Env \<Rightarrow> string \<Rightarrow> state \<Rightarrow> TabMeta \<Rightarrow> RmFileHandle \<Rightarrow> bool" where
  "droppable E tab_name s tab fh =
     (map_of (dm_tabs (db s)) tab_name = Some tab
      \<and> map_of (fhs s) tab_name = Some (Some fh)
      \<and> distinct (index_names E tab_name (tm_indexes tab))
      \<and> list_all (holds_handle (ihs s)) (index_names E tab_name (tm_indexes tab)))"

fun drop_events :: "Env \<Rightarrow> string \<Rightarrow> (string \<times> IxIndexHandle option) list \<Rightarrow> IndexMeta list \<Rightarrow> event list" where
  "drop_events E tab_name m [] = []"
| "drop_events E tab_name m (index # rest) =
     (case map_of m (get_index_name_cols E tab_name (im_cols index)) of
        Some (Some ih) \<Rightarrow> [Ix_close_index ih, Ix_destroy_index tab_name (map cm_name (im_cols index))]
      | _ \<Rightarrow> [])
     @ drop_events E tab_name m rest"

fun remove_files :: "string list list \<Rightarrow> (string list \<Rightarrow> disk_file option) \<Rightarrow> (string list \<Rightarrow> disk_file option)" where
  "remove_files [] f = f"
| "remove_files (p # ps) f = remove_files ps (f(p := None))"

definition dropping :: "state \<Rightarrow> string list \<Rightarrow> event list \<Rightarrow> state" where
  "dropping s names evs =
     s\<lparr>ihs := fold erase names (ihs s),
       files := remove_files (map ((@) (cwd s)) (map (\<lambda>k. [k]) names)) (files s),
       trace := trace s @ evs\<rparr>"

text \<open>
  \<open>ex_closed_indexed\<close> with one more index file, under the canonical name of an index on
  column \<open>a\<close> of a table called \<^verbatim>\<open>t_a.idx\<close>; and \<open>ex_db_t\<close> with a directory \<^verbatim>\<open>inner\<close> inside
  the directory of the open database; and a context with a transaction.
\<close>

definition ex_closed_indexed_twice :: state where
  "ex_closed_indexed_twice =
     ex_closed_indexed\<lparr>files := (files ex_closed_indexed)
        ([''db'', ''t_a.idx_a.idx''] \<mapsto> IxFile [ex_col_a] [])\<rparr>"

definition ex_db_t_nested :: state where
  "ex_db_t_nested = ex_db_t\<lparr>dirs := {[''db''], [''db'', ''inner'']}\<rparr>"

definition ex_context :: Context where
  "ex_context = \<lparr>txn = Some 7\<rparr>"

section \<open>Properties\<close>

subsection \<open>Running actions\<close>

lemma and_then_return [simp]: "and_then (return a) f = f a"
  by (rule ext) (simp add: and_then_def return_def)

lemma and_then_throw [simp]: "and_then (throw e) f = throw e"
  by (rule ext) (simp add: and_then_def throw_def)

lemma and_then_crash [simp]: "and_then (crash c) f = crash c"
  by (rule ext) (simp add: and_then_def crash_def)

lemma and_then_update [simp]: "and_then (update g) f s = f () (g s)"
  by (simp add: and_then_def update_def return_def)

lemma and_then_Returned: "m s = (Returned a, s') \<Longrightarrow> and_then m f s = f a s'"
  by (simp add: and_then_def)

lemmas run_defs = split_beta Let_def and_then_def return_def throw_def crash_def log_def update_def
  flush_meta_def ofstream_open_def ofstream_put_def

text \<open>The definitions of the examples, and two facts about \<open>ex_db_t\<close>.\<close>

lemmas ex_defs = ex_env_def ex_col_a_def ex_col_b_def ex_index_a_def ex_tab_def ex_tab_indexed_def
  ex_rid1_def ex_rid2_def ex_rec1_def ex_rec2_def ex_records_def ex_context_def

lemma ex_buildable_a: "index_buildable ex_env ''t'' [''a''] ex_db_t [ex_col_a] [''db'', ''t''] ex_records"
  by (simp add: index_buildable_def is_file_def lens_fit_def col_within_def ex_db_t_def ex_defs)

lemma ex_buildable_b: "index_buildable ex_env ''t'' [''b''] ex_db_t [ex_col_b] [''db'', ''t''] ex_records"
  by (simp add: index_buildable_def is_file_def lens_fit_def col_within_def ex_db_t_def ex_defs)

section \<open>Opening and closing a database\<close>

subsection \<open>\<^verbatim>\<open>open_db\<close> while a database is open\<close>

text \<open>
  C7, with the order of the two checks. \<^verbatim>\<open>open_db\<close> called while a database is open (\<^verbatim>\<open>db_.name_\<close> is not empty)
  throws and changes nothing: not the catalog, not the two registries, not the working
  directory, not the disk. What it throws depends on the name: \<^verbatim>\<open>DatabaseNotFoundError\<close>
  when the working directory has no directory of that name, because the source checks
  this first; \<^verbatim>\<open>DatabaseExistsError\<close>, the error of the already-open check, otherwise.
\<close>

theorem open_db_while_open:
  assumes "dm_name (db s) \<noteq> []"
  shows "open_db E db_name s =
     (Threw (if is_dir db_name s then DatabaseExistsError db_name else DatabaseNotFoundError db_name), s)"
  using assms by (simp add: open_db_def throw_def)

text \<open>Both branches: the directory \<^verbatim>\<open>inner\<close> exists inside the open database, \<^verbatim>\<open>other\<close> does not.\<close>

theorem open_db_while_open_witness:
  "dm_name (db ex_db_t_nested) \<noteq> [] \<and> is_dir ''inner'' ex_db_t_nested
   \<and> open_db ex_env ''inner'' ex_db_t_nested = (Threw (DatabaseExistsError ''inner''), ex_db_t_nested)
   \<and> dm_name (db ex_db_t) \<noteq> [] \<and> \<not> is_dir ''other'' ex_db_t
   \<and> open_db ex_env ''other'' ex_db_t = (Threw (DatabaseNotFoundError ''other''), ex_db_t)"
proof -
  have h1: "dm_name (db ex_db_t_nested) \<noteq> []" and d1: "is_dir ''inner'' ex_db_t_nested"
    by (simp_all add: ex_db_t_nested_def ex_db_t_def is_dir_def)
  have h2: "dm_name (db ex_db_t) \<noteq> []" and d2: "\<not> is_dir ''other'' ex_db_t"
    by (simp_all add: ex_db_t_def is_dir_def)
  from open_db_while_open [OF h1, of ex_env "''inner''"] open_db_while_open [OF h2, of ex_env "''other''"]
  show ?thesis using h1 h2 d1 d2 by simp
qed

text \<open>
  C7 as stated fails: with \<^verbatim>\<open>db\<close> open, \<^verbatim>\<open>open_db("other")\<close> ends with
  \<^verbatim>\<open>DatabaseNotFoundError\<close>, not with the error of the already-open check.
\<close>

theorem open_db_while_open_counterexample:
  "dm_name (db ex_db_t) \<noteq> []
   \<and> fst (open_db ex_env ''other'' ex_db_t) = Threw (DatabaseNotFoundError ''other'')
   \<and> fst (open_db ex_env ''other'' ex_db_t) \<noteq> Threw (DatabaseExistsError ''other'')"
  by (simp add: open_db_def throw_def is_dir_def ex_db_t_def)

subsection \<open>\<^verbatim>\<open>open_db\<close> and the registry of index handles\<close>

text \<open>
  C2 at a failing input. The catalog on disk holds the table \<^verbatim>\<open>t\<close> with an index on \<open>a\<close>,
  whose canonical name is \<^verbatim>\<open>t_a.idx\<close>. \<^verbatim>\<open>open_db\<close> hands \<^verbatim>\<open>open_index\<close> that canonical
  name where \<^verbatim>\<open>create_index\<close> hands it the table name, so the index manager looks for
  \<^verbatim>\<open>t_a.idx_a.idx\<close>: the call fails, the database stays half open with its catalog
  loaded and no index handle at all. Where that other file happens to exist,
  \<^verbatim>\<open>open_db\<close> returns, and the handle (on the wrong file) is registered under the table
  name \<^verbatim>\<open>t\<close>, not under \<^verbatim>\<open>t_a.idx\<close>.
\<close>

theorem open_db_index_registry:
  "fst (open_db ex_env ''db'' ex_closed_indexed) = Threw FilesystemFailure
   \<and> db (snd (open_db ex_env ''db'' ex_closed_indexed))
       = \<lparr>dm_name = ''db'', dm_tabs = [(''t'', ex_tab_indexed)]\<rparr>
   \<and> fhs (snd (open_db ex_env ''db'' ex_closed_indexed)) = [(''t'', Some [''db'', ''t''])]
   \<and> ihs (snd (open_db ex_env ''db'' ex_closed_indexed)) = []
   \<and> trace (snd (open_db ex_env ''db'' ex_closed_indexed))
       = [Rm_open_file ''t'', Ix_open_index ''t_a.idx'' [''a'']]
   \<and> fst (open_db ex_env ''db'' ex_closed_indexed_twice) = Returned ()
   \<and> ihs (snd (open_db ex_env ''db'' ex_closed_indexed_twice))
       = [(''t'', Some [''db'', ''t_a.idx_a.idx''])]
   \<and> index_names ex_env ''t'' (tm_indexes ex_tab_indexed) = [''t_a.idx'']"
  by (simp add: open_db_def run_defs is_dir_def chdir_def ifstream_get_def rm_open_file_def emplace_def
      ix_open_index_cols_def ix_open_index_def get_index_name_cols_def index_names_def
      ex_closed_indexed_twice_def ex_closed_indexed_def ex_defs)

subsection \<open>\<^verbatim>\<open>close_db\<close> and the metadata file\<close>

text \<open>
  C1 at a failing input. \<^verbatim>\<open>close_db\<close> on the open database \<^verbatim>\<open>db\<close> with the table \<^verbatim>\<open>t\<close>
  and its index returns with the catalog and both registries empty and the working
  directory back where it was, but the metadata file is empty too: \<^verbatim>\<open>flush_meta\<close> has
  written the catalog, and the \<^verbatim>\<open>std::ofstream\<close> that \<^verbatim>\<open>close_db\<close> opens next on the same
  file cuts it to length zero and writes nothing.
\<close>

theorem close_db_empties_meta_file:
  "fst (close_db ex_db_t_indexed) = Returned ()
   \<and> meta_file (snd (flush_meta ex_db_t_indexed)) [''db''] = Some [db ex_db_t_indexed]
   \<and> meta_file (snd (close_db ex_db_t_indexed)) [''db''] = Some []
   \<and> db (snd (close_db ex_db_t_indexed)) = \<lparr>dm_name = [], dm_tabs = []\<rparr>
   \<and> fhs (snd (close_db ex_db_t_indexed)) = []
   \<and> ihs (snd (close_db ex_db_t_indexed)) = []
   \<and> cwd (snd (close_db ex_db_t_indexed)) = []"
  by (simp add: close_db_def run_defs rm_close_file_def ix_close_index_def chdir_def ex_db_t_indexed_def)

section \<open>Tables\<close>

subsection \<open>\<^verbatim>\<open>create_table\<close>\<close>

lemma map_of_map_assign: "map_of (map_assign k v m) k = Some v"
  by (induction m) auto

lemma layout_cols_acc:
  "layout_cols tn ds off acc = (acc @ fst (layout_cols tn ds off []), snd (layout_cols tn ds off []))"
proof (induction ds arbitrary: off acc)
  case Nil
  then show ?case by simp
next
  case (Cons d ds)
  show ?case
    by (simp add: Let_def Cons.IH [of _ "acc @ _"] Cons.IH [of _ "[_]"])
qed

lemma layout_cols_Cons:
  "layout_cols tn (d # ds) off [] =
     (\<lparr>cm_tab_name = tn, cm_name = cd_name d, cm_type = cd_type d, cm_len = cd_len d,
        cm_offset = off, cm_index = False\<rparr> # fst (layout_cols tn ds (off + cd_len d) []),
      snd (layout_cols tn ds (off + cd_len d) []))"
  by (simp add: Let_def layout_cols_acc [of _ _ _ "[_]"])

lemma layout_cols_length: "length (fst (layout_cols tn ds off [])) = length ds"
  by (induction ds arbitrary: off) (simp_all add: layout_cols_Cons del: layout_cols.simps(2))

lemma layout_cols_total: "snd (layout_cols tn ds off []) = off + sum_list (map cd_len ds)"
  by (induction ds arbitrary: off) (simp_all add: layout_cols_Cons add.assoc del: layout_cols.simps(2))

lemma layout_cols_nth:
  "i < length ds \<Longrightarrow>
     fst (layout_cols tn ds off []) ! i =
       \<lparr>cm_tab_name = tn, cm_name = cd_name (ds ! i), cm_type = cd_type (ds ! i),
        cm_len = cd_len (ds ! i), cm_offset = off + sum_list (map cd_len (take i ds)),
        cm_index = False\<rparr>"
proof (induction ds arbitrary: off i)
  case Nil
  then show ?case by simp
next
  case (Cons d ds)
  show ?case
  proof (cases i)
    case 0
    then show ?thesis by (simp add: layout_cols_Cons del: layout_cols.simps(2))
  next
    case (Suc j)
    with Cons.prems have "j < length ds" by simp
    from Cons.IH [OF this] Suc show ?thesis
      by (simp add: layout_cols_Cons add.assoc del: layout_cols.simps(2))
  qed
qed

lemma create_table_run:
  assumes "\<not> is_table (db s) tab_name"
  shows "fst (create_table tab_name col_defs context s) = Returned ()"
    and "db (snd (create_table tab_name col_defs context s)) =
      (db s)\<lparr>dm_tabs := map_assign tab_name
           \<lparr>tm_name = tab_name, tm_cols = fst (layout_cols tab_name col_defs 0 []), tm_indexes = []\<rparr> (dm_tabs (db s))\<rparr>"
    and "files (snd (create_table tab_name col_defs context s)) =
       (files s)(cwd s @ [tab_name] \<mapsto> RecFile (snd (layout_cols tab_name col_defs 0 [])) [])"
    and "cwd (snd (create_table tab_name col_defs context s)) = cwd s"
    and "fhs (snd (create_table tab_name col_defs context s)) = emplace tab_name (Some (cwd s @ [tab_name])) (fhs s)"
    and "meta_file (snd (create_table tab_name col_defs context s)) (cwd s) = Some [db (snd (create_table tab_name col_defs context s))]"
  using assms
  by (simp_all add: create_table_def rm_create_file_def rm_open_file_def run_defs)

text \<open>Sums of column lengths as integers.\<close>

lemma sint_sum_list:
  "lens_fit ws \<Longrightarrow> sint (sum_list ws) = sum_list (map sint ws)"
proof (induction ws)
  case Nil
  then show ?case by simp
next
  case (Cons w ws)
  from Cons.prems have w: "0 \<le> sint w" and ws: "list_all (\<lambda>n. 0 \<le> sint n) ws"
    and total: "sint w + sum_list (map sint ws) < 2 ^ 31"
    by (simp_all add: lens_fit_def)
  from ws have nonneg: "0 \<le> sum_list (map sint ws)"
    by (induction ws) simp_all
  with w total have "lens_fit ws" using ws by (simp add: lens_fit_def)
  then have IH: "sint (sum_list ws) = sum_list (map sint ws)" by (rule Cons.IH)
  have "sint (w + sum_list ws) = signed_take_bit 31 (sint w + sint (sum_list ws))"
    by (simp add: sint_word_ariths)
  also have "\<dots> = sint w + sum_list (map sint ws)"
    using w nonneg total by (simp add: IH signed_take_bit_int_eq_self)
  finally show ?case by simp
qed

lemma lens_fit_take: "lens_fit ws \<Longrightarrow> lens_fit (take i ws)"
proof -
  assume fit: "lens_fit ws"
  then have all: "list_all (\<lambda>n. 0 \<le> sint n) ws" by (simp add: lens_fit_def)
  then have "0 \<le> sum_list (map sint (drop i ws))"
    by (intro sum_list_nonneg) (auto simp: list_all_iff dest: in_set_dropD)
  moreover have "sum_list (map sint ws) = sum_list (map sint (take i ws)) + sum_list (map sint (drop i ws))"
    by (metis append_take_drop_id map_append sum_list.append)
  moreover from all have "list_all (\<lambda>n. 0 \<le> sint n) (take i ws)"
    by (simp add: list_all_iff) (meson in_set_takeD)
  ultimately show ?thesis using fit by (simp add: lens_fit_def)
qed

text \<open>
  C5. \<^verbatim>\<open>create_table\<close> on a name that is not in the catalog returns, and the table it
  stores has the names and lengths of the column definitions, each offset being the sum
  of the lengths of the columns declared before (so 0 for the first); the record file it
  creates has the sum of all lengths as its record size. The sums are those of 32-bit
  \<^verbatim>\<open>int\<close>; where no length is negative and the total is below \<open>2 ^ 31\<close>, they are the
  sums of the integers.
\<close>

theorem create_table_layout:
  assumes "\<not> is_table (db s) tab_name"
  shows "\<exists>s' tab. create_table tab_name col_defs context s = (Returned (), s')
      \<and> map_of (dm_tabs (db s')) tab_name = Some tab
      \<and> map cm_name (tm_cols tab) = map cd_name col_defs
      \<and> map cm_len (tm_cols tab) = map cd_len col_defs
      \<and> map cm_offset (tm_cols tab)
          = map (\<lambda>i. sum_list (map cd_len (take i col_defs))) [0..<length col_defs]
      \<and> files s' (cwd s' @ [tab_name]) = Some (RecFile (sum_list (map cd_len col_defs)) [])
      \<and> (lens_fit (map cd_len col_defs) \<longrightarrow>
            map (\<lambda>col. sint (cm_offset col)) (tm_cols tab)
              = map (\<lambda>i. sum_list (map (\<lambda>d. sint (cd_len d)) (take i col_defs))) [0..<length col_defs]
            \<and> sint (sum_list (map cd_len col_defs)) = sum_list (map (\<lambda>d. sint (cd_len d)) col_defs))"
proof -
  let ?r = "create_table tab_name col_defs context s"
  let ?cols = "fst (layout_cols tab_name col_defs 0 [])"
  let ?tab = "\<lparr>tm_name = tab_name, tm_cols = ?cols, tm_indexes = []\<rparr>"
  note run = create_table_run [OF assms, of col_defs "context"]
  have len: "length ?cols = length col_defs" by (rule layout_cols_length)
  have names: "map cm_name ?cols = map cd_name col_defs"
    by (rule nth_equalityI) (simp_all add: len layout_cols_nth)
  have lens: "map cm_len ?cols = map cd_len col_defs"
    by (rule nth_equalityI) (simp_all add: len layout_cols_nth)
  have offs: "map cm_offset ?cols = map (\<lambda>i. sum_list (map cd_len (take i col_defs))) [0..<length col_defs]"
    by (rule nth_equalityI) (simp_all add: len layout_cols_nth)
  have ints: "map (\<lambda>col. sint (cm_offset col)) ?cols
      = map (\<lambda>i. sum_list (map (\<lambda>d. sint (cd_len d)) (take i col_defs))) [0..<length col_defs]"
    and total: "sint (sum_list (map cd_len col_defs)) = sum_list (map (\<lambda>d. sint (cd_len d)) col_defs)"
    if fit: "lens_fit (map cd_len col_defs)"
  proof -
    have "sint (sum_list (map cd_len (take i col_defs))) = sum_list (map (\<lambda>d. sint (cd_len d)) (take i col_defs))" for i
      using sint_sum_list [OF lens_fit_take [OF fit, of i]] by (simp add: take_map comp_def)
    then show "map (\<lambda>col. sint (cm_offset col)) ?cols
      = map (\<lambda>i. sum_list (map (\<lambda>d. sint (cd_len d)) (take i col_defs))) [0..<length col_defs]"
      by (intro nth_equalityI) (simp_all add: len layout_cols_nth)
    show "sint (sum_list (map cd_len col_defs)) = sum_list (map (\<lambda>d. sint (cd_len d)) col_defs)"
      using sint_sum_list [OF fit] by (simp add: comp_def)
  qed
  have "?r = (Returned (), snd ?r)" using run(1) by (metis prod.collapse)
  moreover have "map_of (dm_tabs (db (snd ?r))) tab_name = Some ?tab"
    by (simp add: run(2) map_of_map_assign)
  moreover have "files (snd ?r) (cwd (snd ?r) @ [tab_name]) = Some (RecFile (sum_list (map cd_len col_defs)) [])"
    by (simp add: run(3,4) layout_cols_total)
  ultimately show ?thesis
    using names lens offs ints total by (intro exI [of _ "snd ?r"] exI [of _ ?tab]) simp
qed

text \<open>The example of the specification: columns \<open>a\<close> of 4 bytes and \<open>b\<close> of 8 bytes.\<close>

theorem create_table_layout_witness:
  "\<exists>s' tab. create_table ''t''
       [\<lparr>cd_name = ''a'', cd_type = TYPE_INT, cd_len = 4\<rparr>, \<lparr>cd_name = ''b'', cd_type = TYPE_STRING, cd_len = 8\<rparr>]
       None ex_db_empty = (Returned (), s')
     \<and> map_of (dm_tabs (db s')) ''t'' = Some tab
     \<and> map cm_name (tm_cols tab) = [''a'', ''b'']
     \<and> map cm_offset (tm_cols tab) = [0, 4]
     \<and> map (\<lambda>col. sint (cm_offset col)) (tm_cols tab) = [0, 4]
     \<and> files s' (cwd s' @ [''t'']) = Some (RecFile 12 [])"
proof -
  have h: "\<not> is_table (db ex_db_empty) ''t''"
    by (simp add: is_table_def ex_db_empty_def)
  have fit: "lens_fit [4, 8]" by (simp add: lens_fit_def)
  have upt: "[0..<2] = [0, Suc 0]" by (simp add: upt_rec)
  from create_table_layout [OF h, of
       "[\<lparr>cd_name = ''a'', cd_type = TYPE_INT, cd_len = 4\<rparr>, \<lparr>cd_name = ''b'', cd_type = TYPE_STRING, cd_len = 8\<rparr>]" None]
  show ?thesis using fit by (auto simp: upt)
qed

subsection \<open>\<^verbatim>\<open>drop_table\<close>\<close>

lemma map_of_erase: "map_of (erase k m) k' = (if k' = k then None else map_of m k')"
  by (induction m) auto

lemma map_of_fold_erase: "map_of (fold erase ks m) k = (if k \<in> set ks then None else map_of m k)"
  by (induction ks arbitrary: m) (auto simp: map_of_erase)

lemma dropping_Nil: "dropping s [] [] = s"
  by (simp add: dropping_def)

lemma remove_files_apply: "remove_files ps f p = (if p \<in> set ps then None else f p)"
  by (induction ps arbitrary: f) auto

lemma dropping_dropping:
  "dropping (dropping s [k] e1) ks e2 = dropping s (k # ks) (e1 @ e2)"
  by (simp add: dropping_def)

lemma drop_events_erase:
  "get_index_name_cols E tn (im_cols index) \<notin> set (index_names E tn ixs) \<Longrightarrow>
   drop_events E tn (erase (get_index_name_cols E tn (im_cols index)) m) ixs = drop_events E tn m ixs"
  by (induction ixs) (auto simp: index_names_def map_of_erase)

lemma drop_indexes_step:
  assumes "holds_handle (ihs s) (get_index_name_cols E tn (im_cols index))"
  shows "drop_indexes E tn (index # rest) s =
     drop_indexes E tn rest
       (dropping s [get_index_name_cols E tn (im_cols index)] (drop_events E tn (ihs s) [index]))"
proof -
  from assms obtain ih where ih: "map_of (ihs s) (get_index_name_cols E tn (im_cols index)) = Some (Some ih)"
    by (auto simp: holds_handle_def split: option.splits)
  have "drop_indexes E tn (index # rest) s =
     drop_indexes E tn rest
       (s\<lparr>files := (files s)(cwd s @ [get_index_name_cols E tn (im_cols index)] := None),
          trace := trace s @ [Ix_close_index ih, Ix_destroy_index tn (map cm_name (im_cols index))],
          ihs := erase (get_index_name_cols E tn (im_cols index)) (ihs s)\<rparr>)"
    by (simp add: Let_def and_then_def ihs_subscript_def subscript_def return_def ih
        ix_close_index_def ix_destroy_index_cols_def ix_destroy_index_def log_def update_def
        get_index_name_cols_def [symmetric])
  also have "s\<lparr>files := (files s)(cwd s @ [get_index_name_cols E tn (im_cols index)] := None),
          trace := trace s @ [Ix_close_index ih, Ix_destroy_index tn (map cm_name (im_cols index))],
          ihs := erase (get_index_name_cols E tn (im_cols index)) (ihs s)\<rparr> =
      dropping s [get_index_name_cols E tn (im_cols index)] (drop_events E tn (ihs s) [index])"
    by (rule state.equality) (simp_all add: dropping_def ih)
  finally show ?thesis .
qed

lemma drop_indexes_run:
  assumes "distinct (index_names E tn ixs)" and "list_all (holds_handle (ihs s)) (index_names E tn ixs)"
  shows "drop_indexes E tn ixs s =
     (Returned (), dropping s (index_names E tn ixs) (drop_events E tn (ihs s) ixs))"
  using assms
proof (induction ixs arbitrary: s)
  case Nil
  then show ?case by (simp add: return_def index_names_def dropping_Nil)
next
  case (Cons index ixs)
  let ?k = "get_index_name_cols E tn (im_cols index)"
  let ?s1 = "dropping s [?k] (drop_events E tn (ihs s) [index])"
  from Cons.prems have k: "holds_handle (ihs s) ?k" and fresh: "?k \<notin> set (index_names E tn ixs)"
    and d: "distinct (index_names E tn ixs)" and reg: "list_all (holds_handle (ihs s)) (index_names E tn ixs)"
    by (simp_all add: index_names_def)
  have ihs1: "ihs ?s1 = erase ?k (ihs s)" by (simp add: dropping_def)
  from reg fresh have reg1: "list_all (holds_handle (ihs ?s1)) (index_names E tn ixs)"
    unfolding ihs1 by (auto simp: list_all_iff holds_handle_def map_of_erase)
  have "drop_indexes E tn (index # ixs) s = drop_indexes E tn ixs ?s1"
    by (rule drop_indexes_step [OF k])
  also have "\<dots> = (Returned (), dropping ?s1 (index_names E tn ixs) (drop_events E tn (ihs ?s1) ixs))"
    by (rule Cons.IH [OF d reg1])
  also have "drop_events E tn (ihs ?s1) ixs = drop_events E tn (ihs s) ixs"
    unfolding ihs1 by (rule drop_events_erase [OF fresh])
  also have "dropping ?s1 (index_names E tn ixs) (drop_events E tn (ihs s) ixs)
      = dropping s (index_names E tn (index # ixs)) (drop_events E tn (ihs s) (index # ixs))"
    unfolding dropping_dropping by (simp add: index_names_def)
  finally show ?case .
qed

lemma drop_index_no_table:
  assumes "map_of (dm_tabs (db s)) tab_name = None"
  shows "drop_index E tab_name col_names context s = (Threw (TableNotFoundError tab_name), s)"
    and "drop_index_cols E tab_name cols context s = (Threw (TableNotFoundError tab_name), s)"
  using assms
  by (simp_all add: drop_index_def drop_index_cols_def and_then_def get_table_def throw_def)

lemma drop_table_run:
  assumes "droppable E tab_name s tab fh"
  shows "\<exists>s'. drop_table E tab_name context s = (Returned (), s')
     \<and> trace s' = trace s @ [Rm_close_file fh, Rm_destroy_file tab_name]
                     @ drop_events E tab_name (ihs s) (tm_indexes tab)
     \<and> dm_tabs (db s') = erase tab_name (dm_tabs (db s))
     \<and> dm_name (db s') = dm_name (db s)
     \<and> fhs s' = erase tab_name (fhs s)
     \<and> ihs s' = fold erase (index_names E tab_name (tm_indexes tab)) (ihs s)
     \<and> files s' = remove_files (map ((@) (cwd s)) (map (\<lambda>k. [k]) (index_names E tab_name (tm_indexes tab))))
                     ((files s)(cwd s @ [tab_name] := None))
     \<and> cwd s' = cwd s
     \<and> meta_file s' (cwd s) = Some [db s']"
proof -
  let ?names = "index_names E tab_name (tm_indexes tab)"
  from assms have table: "map_of (dm_tabs (db s)) tab_name = Some tab"
    and handle: "map_of (fhs s) tab_name = Some (Some fh)"
    and d: "distinct ?names" and reg: "list_all (holds_handle (ihs s)) ?names"
    by (simp_all add: droppable_def)
  define s0 where "s0 = s\<lparr>files := (files s)(cwd s @ [tab_name] := None),
      trace := trace s @ [Rm_close_file fh, Rm_destroy_file tab_name]\<rparr>"
  define s1 where "s1 = dropping s0 ?names (drop_events E tab_name (ihs s) (tm_indexes tab))"
  define s2 where "s2 = snd (flush_meta (s1\<lparr>db := (db s1)\<lparr>dm_tabs := erase tab_name (dm_tabs (db s1))\<rparr>,
      fhs := erase tab_name (fhs s1)\<rparr>))"
  have s0: "ihs s0 = ihs s" "db s0 = db s" "fhs s0 = fhs s" "cwd s0 = cwd s"
    "files s0 = (files s)(cwd s @ [tab_name] := None)"
    "trace s0 = trace s @ [Rm_close_file fh, Rm_destroy_file tab_name]"
    by (simp_all add: s0_def)
  have loop: "drop_indexes E tab_name (tm_indexes tab) s0 = (Returned (), s1)"
    unfolding s1_def using drop_indexes_run [of E tab_name "tm_indexes tab" s0] d reg
    by (simp add: s0)
  have start: "drop_table E tab_name context s =
      and_then (drop_indexes E tab_name (tm_indexes tab)) (\<lambda>_.
      and_then (update (\<lambda>s. s\<lparr>db := (db s)\<lparr>dm_tabs := erase tab_name (dm_tabs (db s))\<rparr>\<rparr>)) (\<lambda>_.
      and_then (update (\<lambda>s. s\<lparr>fhs := erase tab_name (fhs s)\<rparr>)) (\<lambda>_.
      flush_meta))) s0"
    by (simp add: drop_table_def and_then_def [of "get_table tab_name"] get_table_def table return_def
        and_then_def [of "fhs_subscript tab_name"] fhs_subscript_def subscript_def handle
        and_then_def [of "rm_close_file (Some fh)"] rm_close_file_def log_def
        and_then_def [of "rm_destroy_file tab_name"] rm_destroy_file_def s0_def)
  have run: "drop_table E tab_name context s = (Returned (), s2)"
    unfolding start
    by (simp add: and_then_def [of "drop_indexes E tab_name (tm_indexes tab)"] loop s2_def
        flush_meta_def return_def)
  have s1: "db s1 = db s" "fhs s1 = fhs s" "cwd s1 = cwd s"
    "ihs s1 = fold erase ?names (ihs s)"
    "files s1 = remove_files (map ((@) (cwd s)) (map (\<lambda>k. [k]) ?names)) ((files s)(cwd s @ [tab_name] := None))"
    "trace s1 = trace s @ [Rm_close_file fh, Rm_destroy_file tab_name] @ drop_events E tab_name (ihs s) (tm_indexes tab)"
    by (simp_all add: s1_def dropping_def s0)
  have s2: "trace s2 = trace s1" "dm_tabs (db s2) = erase tab_name (dm_tabs (db s1))"
    "dm_name (db s2) = dm_name (db s1)" "fhs s2 = erase tab_name (fhs s1)" "ihs s2 = ihs s1"
    "files s2 = files s1" "cwd s2 = cwd s1" "meta_file s2 (cwd s1) = Some [db s2]"
    by (simp_all add: s2_def run_defs)
  show ?thesis
    apply (rule exI [of _ s2])
    apply (intro conjI)
            apply (rule run)
           apply (simp only: s2 s1)
          apply (simp only: s2 s1)
         apply (simp only: s2 s1)
        apply (simp only: s2 s1)
       apply (simp only: s2 s1)
      apply (simp only: s2 s1)
     apply (simp only: s2 s1)
    apply (simp only: s2(8) [unfolded s1(3)])
    done
qed

text \<open>
  C6. \<^verbatim>\<open>drop_table\<close> on a table of the catalog whose record file and indexes are open
  under their names returns; its calls are: close and destroy the record file, then for
  each index of the table, in the order of the table's list, close its handle and only
  then destroy it (two calls for each index). Afterwards the table is in neither the
  catalog nor the registry of record handles, no index of the table is in the registry
  of index handles or on disk, the metadata file holds the new catalog, and
  \<^verbatim>\<open>drop_index\<close> in either shape on that table fails with \<^verbatim>\<open>TableNotFoundError\<close>.
\<close>

theorem drop_table_removes_indexes:
  assumes "droppable E tab_name s tab fh"
  shows "\<exists>s'. drop_table E tab_name context s = (Returned (), s')
     \<and> trace s' = trace s @ [Rm_close_file fh, Rm_destroy_file tab_name]
                     @ drop_events E tab_name (ihs s) (tm_indexes tab)
     \<and> length (drop_events E tab_name (ihs s) (tm_indexes tab)) = 2 * length (tm_indexes tab)
     \<and> dm_tabs (db s') = erase tab_name (dm_tabs (db s))
     \<and> map_of (dm_tabs (db s')) tab_name = None
     \<and> fhs s' = erase tab_name (fhs s)
     \<and> map_of (fhs s') tab_name = None
     \<and> \<not> is_file tab_name s'
     \<and> list_all (\<lambda>k. map_of (ihs s') k = None \<and> \<not> is_file k s') (index_names E tab_name (tm_indexes tab))
     \<and> meta_file s' (cwd s) = Some [db s']
     \<and> drop_index E tab_name col_names context' s' = (Threw (TableNotFoundError tab_name), s')
     \<and> drop_index_cols E tab_name cols context' s' = (Threw (TableNotFoundError tab_name), s')"
proof -
  let ?names = "index_names E tab_name (tm_indexes tab)"
  from drop_table_run [OF assms, of "context"]
  obtain s' where run: "drop_table E tab_name context s = (Returned (), s')"
    and t: "trace s' = trace s @ [Rm_close_file fh, Rm_destroy_file tab_name]
                     @ drop_events E tab_name (ihs s) (tm_indexes tab)"
    and d: "dm_tabs (db s') = erase tab_name (dm_tabs (db s))"
    and f: "fhs s' = erase tab_name (fhs s)"
    and i: "ihs s' = fold erase ?names (ihs s)"
    and fl: "files s' = remove_files (map ((@) (cwd s)) (map (\<lambda>k. [k]) ?names))
                     ((files s)(cwd s @ [tab_name] := None))"
    and c: "cwd s' = cwd s"
    and m: "meta_file s' (cwd s) = Some [db s']"
    by blast
  from assms have reg: "list_all (holds_handle (ihs s)) ?names" by (simp add: droppable_def)
  have len: "length (drop_events E tab_name m ixs) = 2 * length ixs"
    if "list_all (holds_handle m) (index_names E tab_name ixs)" for m ixs
    using that by (induction ixs) (auto simp: index_names_def holds_handle_def split: option.splits)
  have gone: "map_of (dm_tabs (db s')) tab_name = None" by (simp add: d map_of_erase)
  have nofile: "\<not> is_file tab_name s'"
    by (simp add: is_file_def fl c remove_files_apply)
  have ix: "list_all (\<lambda>k. map_of (ihs s') k = None \<and> \<not> is_file k s') ?names"
    by (simp add: list_all_iff i map_of_fold_erase is_file_def fl c remove_files_apply)
  show ?thesis
    apply (rule exI [of _ s'])
    apply (intro conjI)
               apply (rule run)
              apply (rule t)
             apply (rule len [OF reg])
            apply (rule d)
           apply (rule gone)
          apply (rule f)
         apply (simp add: f map_of_erase)
        apply (rule nofile)
       apply (rule ix)
      apply (rule m)
     apply (rule drop_index_no_table(1) [OF gone])
    apply (rule drop_index_no_table(2) [OF gone])
    done
qed

text \<open>On the example with the index on \<open>a\<close>.\<close>

theorem drop_table_removes_indexes_witness:
  "droppable ex_env ''t'' ex_db_t_indexed ex_tab_indexed [''db'', ''t'']
   \<and> (\<exists>s'. drop_table ex_env ''t'' None ex_db_t_indexed = (Returned (), s')
        \<and> trace s' = [Rm_close_file [''db'', ''t''], Rm_destroy_file ''t'',
                       Ix_close_index [''db'', ''t_a.idx''], Ix_destroy_index ''t'' [''a'']]
        \<and> dm_tabs (db s') = [] \<and> fhs s' = []
        \<and> map_of (ihs s') ''t_a.idx'' = None \<and> \<not> is_file ''t_a.idx'' s' \<and> \<not> is_file ''t'' s'
        \<and> meta_file s' [''db''] = Some [db s']
        \<and> drop_index ex_env ''t'' [''a''] None s' = (Threw (TableNotFoundError ''t''), s'))"
proof -
  have h: "droppable ex_env ''t'' ex_db_t_indexed ex_tab_indexed [''db'', ''t'']"
    by (simp add: droppable_def index_names_def holds_handle_def get_index_name_cols_def
        ex_db_t_indexed_def ex_defs)
  have c: "trace ex_db_t_indexed = []" "cwd ex_db_t_indexed = [''db'']"
    "dm_tabs (db ex_db_t_indexed) = [(''t'', ex_tab_indexed)]"
    "fhs ex_db_t_indexed = [(''t'', Some [''db'', ''t''])]"
    "ihs ex_db_t_indexed = [(''t_a.idx'', Some [''db'', ''t_a.idx''])]"
    by (simp_all add: ex_db_t_indexed_def)
  have n: "index_names ex_env ''t'' (tm_indexes ex_tab_indexed) = [''t_a.idx'']"
    "drop_events ex_env ''t'' [(''t_a.idx'', Some [''db'', ''t_a.idx''])] (tm_indexes ex_tab_indexed)
       = [Ix_close_index [''db'', ''t_a.idx''], Ix_destroy_index ''t'' [''a'']]"
    by (simp_all add: index_names_def get_index_name_cols_def ex_defs)
  from drop_table_removes_indexes [OF h, of None "[''a'']" None "[]"]
  show ?thesis using h unfolding c n by auto
qed

section \<open>Indexes\<close>

subsection \<open>Creating an index: resolving the columns and filling the key\<close>

lemma resolve_cols_run:
  "those (map (\<lambda>cn. find (\<lambda>col. cm_name col = cn) (tm_cols tm)) cns) = Some cms \<Longrightarrow>
   resolve_cols tm cns acc tot s = (Returned (acc @ cms, tot + sum_list (map cm_len cms)), s)"
proof (induction cns arbitrary: acc tot cms)
  case Nil
  then show ?case by (simp add: return_def)
next
  case (Cons cn cns)
  from Cons.prems obtain c cs where c: "find (\<lambda>col. cm_name col = cn) (tm_cols tm) = Some c"
    and cs: "those (map (\<lambda>cn. find (\<lambda>col. cm_name col = cn) (tm_cols tm)) cns) = Some cs"
    and cms: "cms = c # cs"
    by (auto split: option.splits)
  show ?case
    by (simp add: and_then_def get_col_def return_def c cms Cons.IH [OF cs] add.assoc)
qed

lemma those_find_names:
  "those (map (\<lambda>cn. find (\<lambda>col. cm_name col = cn) cols) cns) = Some cms \<Longrightarrow> map cm_name cms = cns"
proof (induction cns arbitrary: cms)
  case Nil
  then show ?case by simp
next
  case (Cons cn cns)
  from Cons.prems obtain c cs where c: "find (\<lambda>col. cm_name col = cn) cols = Some c"
    and cs: "those (map (\<lambda>cn. find (\<lambda>col. cm_name col = cn) cols) cns) = Some cs"
    and cms: "cms = c # cs"
    by (auto split: option.splits)
  from c have "cm_name c = cn" by (auto simp: find_Some_iff)
  with Cons.IH [OF cs] cms show ?case by simp
qed

lemma length_composite_key:
  "list_all (col_within data) cms \<Longrightarrow>
   int (length (composite_key cms data)) = sum_list (map (\<lambda>c. sint (cm_len c)) cms)"
  by (induction cms) (auto simp: composite_key_def col_within_def)

lemma within_lens_nonneg:
  "list_all (col_within data) cms \<Longrightarrow> 0 \<le> sum_list (map (\<lambda>c. sint (cm_len c)) cms)"
  by (induction cms) (auto simp: col_within_def)

lemma copy_cols_run_gen:
  assumes "list_all (col_within data) cms"
    and "0 \<le> sint off"
    and "sint off + sum_list (map (\<lambda>c. sint (cm_len c)) cms) \<le> int (length key)"
    and "int (length key) < 2 ^ 31"
  shows "copy_cols cms data key off s =
     (Returned (take (nat (sint off)) key @ composite_key cms data
                @ drop (nat (sint off) + length (composite_key cms data)) key), s)"
  using assms
proof (induction cms arbitrary: key off)
  case Nil
  then show ?case by (simp add: return_def composite_key_def)
next
  case (Cons c cms)
  let ?n = "nat (sint (cm_len c))" and ?o = "nat (sint (cm_offset c))" and ?d = "nat (sint off)"
  let ?slice = "take ?n (drop ?o data)"
  let ?key' = "take ?d key @ ?slice @ drop (nat (sint off + sint (cm_len c))) key"
  from Cons.prems have c: "col_within data c" and rest: "list_all (col_within data) cms" by simp_all
  from within_lens_nonneg [OF rest] have nonneg: "0 \<le> sum_list (map (\<lambda>c. sint (cm_len c)) cms)" .
  from c have len0: "0 \<le> sint (cm_len c)" and off0: "0 \<le> sint (cm_offset c)"
    and inside: "sint (cm_offset c) + sint (cm_len c) \<le> int (length data)"
    by (simp_all add: col_within_def)
  from Cons.prems nonneg have fits: "sint off + sint (cm_len c) \<le> int (length key)" by simp
  have mem: "memcpy key off data (cm_offset c) (cm_len c) = Some ?key'"
    using Cons.prems(2) len0 off0 inside fits by (simp add: memcpy_def)
  have slice_len: "length ?slice = ?n" using len0 off0 inside by simp
  have key'_len: "length ?key' = length key"
    using slice_len Cons.prems(2) len0 fits by (simp add: nat_add_distrib) 
  have off': "sint (off + cm_len c) = sint off + sint (cm_len c)"
    using Cons.prems(2,4) len0 fits by (simp add: sint_word_ariths signed_take_bit_int_eq_self)
  have d_le: "?d \<le> length key" using Cons.prems(2) fits len0 by simp
  have t: "take (nat (sint off + sint (cm_len c))) ?key' = take ?d key @ ?slice"
    using slice_len d_le Cons.prems(2) len0 by (simp add: nat_add_distrib)
  have dr: "drop (nat (sint off + sint (cm_len c)) + m) ?key' = drop (?d + (?n + m)) key" for m
    using slice_len d_le Cons.prems(2) len0 by (simp add: nat_add_distrib ac_simps)
  have ck: "composite_key (c # cms) data = ?slice @ composite_key cms data"
    by (simp add: composite_key_def)
  define key' where "key' = ?key'"
  have IH: "copy_cols cms data key' (off + cm_len c) s =
     (Returned (take (nat (sint (off + cm_len c))) key' @ composite_key cms data
                @ drop (nat (sint (off + cm_len c)) + length (composite_key cms data)) key'), s)"
    using rest Cons.prems off' len0 key'_len unfolding key'_def
    by (intro Cons.IH) (simp_all add: add.assoc)
  have "copy_cols (c # cms) data key off s = copy_cols cms data key' (off + cm_len c) s"
    by (simp add: mem key'_def)
  also note IH
  also have "take (nat (sint (off + cm_len c))) key' = take ?d key @ ?slice"
    unfolding off' key'_def by (rule t)
  also have "drop (nat (sint (off + cm_len c)) + length (composite_key cms data)) key'
      = drop (?d + length (composite_key (c # cms) data)) key"
    unfolding off' key'_def dr ck using slice_len by simp
  finally show ?case by (simp add: ck)
qed

lemma copy_cols_run:
  assumes "list_all (col_within data) cms" and "lens_fit (map cm_len cms)"
    and "length key = nat (sint (sum_list (map cm_len cms)))"
  shows "copy_cols cms data key 0 s = (Returned (composite_key cms data), s)"
proof -
  have total: "sint (sum_list (map cm_len cms)) = sum_list (map (\<lambda>c. sint (cm_len c)) cms)"
    using sint_sum_list [OF assms(2)] by (simp add: comp_def)
  have nonneg: "0 \<le> sum_list (map (\<lambda>c. sint (cm_len c)) cms)"
    by (rule within_lens_nonneg [OF assms(1)])
  have bound: "sum_list (map (\<lambda>c. sint (cm_len c)) cms) < 2 ^ 31"
    using assms(2) by (simp add: lens_fit_def comp_def)
  have len: "int (length key) = sum_list (map (\<lambda>c. sint (cm_len c)) cms)"
    using assms(3) total nonneg by simp
  have "length (composite_key cms data) = length key"
    using length_composite_key [OF assms(1)] len by simp
  with copy_cols_run_gen [OF assms(1), of 0 key s] len bound show ?thesis by simp
qed

lemma index_buildableD:
  assumes "index_buildable E tab_name col_names s col_metas fh records"
  shows "\<not> is_file (get_index_name E tab_name col_names) s"
    and "\<exists>table_meta. map_of (dm_tabs (db s)) tab_name = Some table_meta
          \<and> those (map (\<lambda>col_name. find (\<lambda>col. cm_name col = col_name) (tm_cols table_meta)) col_names) = Some col_metas"
    and "lens_fit (map cm_len col_metas)"
    and "map_of (fhs s) tab_name = Some (Some fh)"
    and "\<exists>rsz. files s fh = Some (RecFile rsz records)"
    and "distinct (map fst records)"
    and "list_all (\<lambda>r. list_all (col_within (snd r)) col_metas) records"
  using assms by (auto simp: index_buildable_def split: option.splits disk_file.splits)

lemma lens_fit_nonneg: "lens_fit ws \<Longrightarrow> 0 \<le> sint (sum_list ws)"
proof -
  assume fit: "lens_fit ws"
  then have "0 \<le> sum_list (map sint ws)"
    by (intro sum_list_nonneg) (auto simp: lens_fit_def list_all_iff)
  with sint_sum_list [OF fit] show ?thesis by simp
qed

lemma create_index_prefix:
  assumes "index_buildable E tab_name col_names s col_metas fh records"
  shows "create_index E tab_name col_names context s =
     and_then
       (build_index E tab_name col_names col_metas (cwd s @ [get_index_name E tab_name col_names])
          (Some fh) context (map fst records)
          (replicate (nat (sint (sum_list (map cm_len col_metas)))) 0))
       (\<lambda>returned. if returned then return ()
          else finish_index E tab_name col_names col_metas (sum_list (map cm_len col_metas))
                 (cwd s @ [get_index_name E tab_name col_names]))
       (building s (cwd s @ [get_index_name E tab_name col_names]) col_metas []
          (trace s @ [Ix_create_index tab_name col_metas, Ix_open_index tab_name col_names,
                      New_char (sum_list (map cm_len col_metas))]))"
proof -
  note b = index_buildableD [OF assms]
  from b(2) obtain table_meta where table: "map_of (dm_tabs (db s)) tab_name = Some table_meta"
    and cols: "those (map (\<lambda>col_name. find (\<lambda>col. cm_name col = col_name) (tm_cols table_meta)) col_names) = Some col_metas"
    by blast
  from b(5) obtain rsz where recfile: "files s fh = Some (RecFile rsz records)" by blast
  have names: "map cm_name col_metas = col_names" by (rule those_find_names [OF cols])
  from b(1) have nofile: "files s (cwd s @ [get_index_name E tab_name col_names]) = None"
    by (simp add: is_file_def)
  with recfile have differ: "fh \<noteq> cwd s @ [get_index_name E tab_name col_names]" by auto
  have nonneg: "\<not> sint (sum_list (map cm_len col_metas)) < 0"
    using lens_fit_nonneg [OF b(3)] by simp
  show ?thesis
    using b(1) differ nonneg
    by (simp add: create_index_def Let_def and_then_def get_table_def table return_def
        resolve_cols_run [OF cols] ix_create_index_def get_index_name_cols_def names log_def
        ix_open_index_def fhs_subscript_def subscript_def b(4) new_char_def rm_scan_def recfile
        building_def)
qed

subsection \<open>Creating an index: the scan\<close>

lemma get_record_run:
  assumes "files s fh = Some (RecFile rsz records)" and "distinct (map fst records)"
    and "(rid, data) \<in> set records"
  shows "get_record (Some fh) rid context s = (Returned data, s)"
  using assms by (simp add: get_record_def return_def)

lemma length_composite_key_buffer:
  assumes "list_all (col_within data) cms" and "lens_fit (map cm_len cms)"
  shows "length (composite_key cms data) = nat (sint (sum_list (map cm_len cms)))"
proof -
  have "sint (sum_list (map cm_len cms)) = sum_list (map (\<lambda>c. sint (cm_len c)) cms)"
    using sint_sum_list [OF assms(2)] by (simp add: comp_def)
  with length_composite_key [OF assms(1)] show ?thesis by simp
qed

lemma build_index_step:
  assumes recfile: "files s fh = Some (RecFile rsz records)" and differ: "fh \<noteq> ih"
    and rids: "distinct (map fst records)" and r: "(rid, data) \<in> set records"
    and within: "list_all (col_within data) cms" and fit: "lens_fit (map cm_len cms)"
    and key: "length key = nat (sint (sum_list (map cm_len cms)))"
  shows "build_index E tn cns cms ih (Some fh) (Some ctx) (rid # rest) key (building s ih cms es tr) =
     (if composite_key cms data \<in> set (map fst es) then
        and_then delete_char (\<lambda>_.
        and_then (ix_close_index (Some ih)) (\<lambda>_.
        and_then (ix_destroy_index E tn cns) (\<lambda>_. return True)))
          (building s ih cms es (tr @ [Ix_insert_entry ih (composite_key cms data) rid]))
      else
        build_index E tn cns cms ih (Some fh) (Some ctx) rest (composite_key cms data)
          (building s ih cms (es @ [(composite_key cms data, rid)])
             (tr @ [Ix_insert_entry ih (composite_key cms data) rid])))"
proof -
  let ?s = "building s ih cms es tr"
  have "files ?s fh = Some (RecFile rsz records)" using recfile differ by (simp add: building_def)
  from get_record_run [OF this rids r]
  have g: "get_record (Some fh) rid (Some ctx) ?s = (Returned data, ?s)" .
  have c: "copy_cols cms data key 0 ?s = (Returned (composite_key cms data), ?s)"
    by (rule copy_cols_run [OF within fit key])
  have i: "insert_entry ih (composite_key cms data) rid (txn ctx) ?s =
     (if composite_key cms data \<in> set (map fst es)
      then (Returned IX_NO_PAGE, building s ih cms es (tr @ [Ix_insert_entry ih (composite_key cms data) rid]))
      else (Returned IX_PAGE, building s ih cms (es @ [(composite_key cms data, rid)])
             (tr @ [Ix_insert_entry ih (composite_key cms data) rid])))"
    by (simp add: insert_entry_def return_def log_def building_def)
  show ?thesis
    by (simp add: and_then_def g c i)
qed

lemma build_index_abort:
  "and_then delete_char (\<lambda>_.
   and_then (ix_close_index (Some (cwd s @ [get_index_name E tn cns]))) (\<lambda>_.
   and_then (ix_destroy_index E tn cns) (\<lambda>_. return True)))
     (building s (cwd s @ [get_index_name E tn cns]) cms es tr) =
   (Returned True,
    s\<lparr>files := (files s)(cwd s @ [get_index_name E tn cns] := None),
      trace := tr @ [Delete_char, Ix_close_index (cwd s @ [get_index_name E tn cns]),
                     Ix_destroy_index tn cns]\<rparr>)"
  by (simp add: and_then_def delete_char_def ix_close_index_def ix_destroy_index_def
      return_def log_def building_def)

lemma build_index_distinct:
  assumes recfile: "files s fh = Some (RecFile rsz records)" and differ: "fh \<noteq> ih"
    and rids: "distinct (map fst records)" and sub: "set rs \<subseteq> set records"
    and within: "list_all (\<lambda>r. list_all (col_within (snd r)) cms) rs"
    and fit: "lens_fit (map cm_len cms)"
    and key: "length key = nat (sint (sum_list (map cm_len cms)))"
    and keys: "distinct (map fst es @ map (\<lambda>r. composite_key cms (snd r)) rs)"
  shows "build_index E tn cns cms ih (Some fh) (Some ctx) (map fst rs) key (building s ih cms es tr) =
     (Returned False,
      building s ih cms (es @ map (\<lambda>r. (composite_key cms (snd r), fst r)) rs)
        (tr @ map (\<lambda>r. Ix_insert_entry ih (composite_key cms (snd r)) (fst r)) rs))"
  using sub within key keys
proof (induction rs arbitrary: es tr key)
  case Nil
  then show ?case by (simp add: return_def)
next
  case (Cons r rs)
  obtain rid data where r: "r = (rid, data)" by (cases r)
  from Cons.prems r have mem: "(rid, data) \<in> set records" and w: "list_all (col_within data) cms"
    and new: "composite_key cms data \<notin> set (map fst es)"
    by auto
  note step = build_index_step [OF recfile differ rids mem w fit Cons.prems(3),
      where E = E and tn = tn and cns = cns and ctx = ctx and rest = "map fst rs" and es = es and tr = tr]
  have IH: "build_index E tn cns cms ih (Some fh) (Some ctx) (map fst rs) (composite_key cms data)
      (building s ih cms (es @ [(composite_key cms data, rid)])
         (tr @ [Ix_insert_entry ih (composite_key cms data) rid])) =
     (Returned False,
      building s ih cms ((es @ [(composite_key cms data, rid)])
               @ map (\<lambda>r. (composite_key cms (snd r), fst r)) rs)
        ((tr @ [Ix_insert_entry ih (composite_key cms data) rid])
               @ map (\<lambda>r. Ix_insert_entry ih (composite_key cms (snd r)) (fst r)) rs))"
    using Cons.prems r by (intro Cons.IH) (auto simp: length_composite_key_buffer [OF w fit])
  show ?case using new by (simp add: r step IH del: build_index.simps(2))
qed

lemma build_index_duplicate:
  assumes recfile: "files s fh = Some (RecFile rsz records)"
    and ih: "ih = cwd s @ [get_index_name E tn cns]" and differ: "fh \<noteq> ih"
    and rids: "distinct (map fst records)" and sub: "set rs \<subseteq> set records"
    and within: "list_all (\<lambda>r. list_all (col_within (snd r)) cms) rs"
    and fit: "lens_fit (map cm_len cms)"
    and key: "length key = nat (sint (sum_list (map cm_len cms)))"
    and keys: "\<not> distinct (map fst es @ map (\<lambda>r. composite_key cms (snd r)) rs)"
    and es: "distinct (map fst es)"
  shows "\<exists>pre. build_index E tn cns cms ih (Some fh) (Some ctx) (map fst rs) key (building s ih cms es tr) =
     (Returned True,
      s\<lparr>files := (files s)(ih := None),
        trace := tr @ pre @ [Delete_char, Ix_close_index ih, Ix_destroy_index tn cns]\<rparr>)"
  using sub within key keys es
proof (induction rs arbitrary: es tr key)
  case Nil
  then show ?case by simp
next
  case (Cons r rs)
  obtain rid data where r: "r = (rid, data)" by (cases r)
  from Cons.prems r have mem: "(rid, data) \<in> set records" and w: "list_all (col_within data) cms"
    by auto
  note step = build_index_step [OF recfile differ rids mem w fit Cons.prems(3),
      where E = E and tn = tn and cns = cns and ctx = ctx and rest = "map fst rs" and es = es and tr = tr]
  show ?case
  proof (cases "composite_key cms data \<in> set (map fst es)")
    case True
    from True have "build_index E tn cns cms ih (Some fh) (Some ctx) (rid # map fst rs) key (building s ih cms es tr) =
        and_then delete_char (\<lambda>_.
        and_then (ix_close_index (Some ih)) (\<lambda>_.
        and_then (ix_destroy_index E tn cns) (\<lambda>_. return True)))
          (building s ih cms es (tr @ [Ix_insert_entry ih (composite_key cms data) rid]))"
      by (simp only: step if_True)
    also have "\<dots> = (Returned True,
      s\<lparr>files := (files s)(ih := None),
        trace := (tr @ [Ix_insert_entry ih (composite_key cms data) rid])
                  @ [Delete_char, Ix_close_index ih, Ix_destroy_index tn cns]\<rparr>)"
      unfolding ih by (rule build_index_abort)
    finally have "build_index E tn cns cms ih (Some fh) (Some ctx) (map fst (r # rs)) key (building s ih cms es tr) =
     (Returned True,
      s\<lparr>files := (files s)(ih := None),
        trace := tr @ [Ix_insert_entry ih (composite_key cms data) rid]
                  @ [Delete_char, Ix_close_index ih, Ix_destroy_index tn cns]\<rparr>)"
      by (simp add: r del: build_index.simps(2))
    then show ?thesis by blast
  next
    case False
    have "\<exists>pre. build_index E tn cns cms ih (Some fh) (Some ctx) (map fst rs) (composite_key cms data)
      (building s ih cms (es @ [(composite_key cms data, rid)])
         (tr @ [Ix_insert_entry ih (composite_key cms data) rid])) =
     (Returned True,
      s\<lparr>files := (files s)(ih := None),
        trace := (tr @ [Ix_insert_entry ih (composite_key cms data) rid]) @ pre
                   @ [Delete_char, Ix_close_index ih, Ix_destroy_index tn cns]\<rparr>)"
      using Cons.prems r False
      by (intro Cons.IH) (auto simp: length_composite_key_buffer [OF w fit])
    then obtain pre where "build_index E tn cns cms ih (Some fh) (Some ctx) (map fst rs) (composite_key cms data)
      (building s ih cms (es @ [(composite_key cms data, rid)])
         (tr @ [Ix_insert_entry ih (composite_key cms data) rid])) =
     (Returned True,
      s\<lparr>files := (files s)(ih := None),
        trace := tr @ (Ix_insert_entry ih (composite_key cms data) rid # pre)
                   @ [Delete_char, Ix_close_index ih, Ix_destroy_index tn cns]\<rparr>)"
      by auto
    with False have "build_index E tn cns cms ih (Some fh) (Some ctx) (map fst (r # rs)) key (building s ih cms es tr) =
     (Returned True,
      s\<lparr>files := (files s)(ih := None),
        trace := tr @ (Ix_insert_entry ih (composite_key cms data) rid # pre)
                   @ [Delete_char, Ix_close_index ih, Ix_destroy_index tn cns]\<rparr>)"
      by (simp add: r step del: build_index.simps(2))
    then show ?thesis by blast
  qed
qed

subsection \<open>Creating an index: the three ways the scan ends\<close>

lemma build_index_null_context:
  assumes recfile: "files s fh = Some (RecFile rsz records)" and differ: "fh \<noteq> ih"
    and rids: "distinct (map fst records)" and r: "(rid, data) \<in> set records"
    and within: "list_all (col_within data) cms" and fit: "lens_fit (map cm_len cms)"
    and key: "length key = nat (sint (sum_list (map cm_len cms)))"
  shows "build_index E tn cns cms ih (Some fh) None (rid # rest) key (building s ih cms es tr) =
     (Crashed NullDereference, building s ih cms es tr)"
proof -
  let ?s = "building s ih cms es tr"
  have "files ?s fh = Some (RecFile rsz records)" using recfile differ by (simp add: building_def)
  from get_record_run [OF this rids r]
  have g: "get_record (Some fh) rid None ?s = (Returned data, ?s)" .
  have c: "copy_cols cms data key 0 ?s = (Returned (composite_key cms data), ?s)"
    by (rule copy_cols_run [OF within fit key])
  show ?thesis
    by (simp add: and_then_def g c crash_def)
qed

lemma map_of_modify:
  "map_of (modify k f m) k' = (if k' = k then map_option f (map_of m k) else map_of m k')"
  by (induction m) auto

lemma finish_index_run:
  "fst (finish_index E tab_name col_names col_metas total_len ih s) = Returned ()"
  "db (snd (finish_index E tab_name col_names col_metas total_len ih s)) =
     (db s)\<lparr>dm_tabs := modify tab_name (\<lambda>t. t\<lparr>tm_indexes := tm_indexes t @
        [\<lparr>im_tab_name = tab_name, im_col_tot_len = total_len,
          im_col_num = of_nat (length col_names), im_cols = col_metas\<rparr>]\<rparr>) (dm_tabs (db s))\<rparr>"
  "ihs (snd (finish_index E tab_name col_names col_metas total_len ih s)) =
     store (get_index_name E tab_name col_names) (Some ih) (ihs s)"
  "fhs (snd (finish_index E tab_name col_names col_metas total_len ih s)) = fhs s"
  "files (snd (finish_index E tab_name col_names col_metas total_len ih s)) = files s"
  "trace (snd (finish_index E tab_name col_names col_metas total_len ih s)) = trace s @ [Delete_char, New_IndexMeta]"
  "cwd (snd (finish_index E tab_name col_names col_metas total_len ih s)) = cwd s"
  "meta_file (snd (finish_index E tab_name col_names col_metas total_len ih s)) (cwd s) =
     Some [db (snd (finish_index E tab_name col_names col_metas total_len ih s))]"
  by (simp_all add: finish_index_def delete_char_def new_IndexMeta_def run_defs)

lemma create_index_run_distinct:
  assumes "index_buildable E tab_name col_names s col_metas fh records"
    and "context = Some ctx"
    and "distinct (map (\<lambda>r. composite_key col_metas (snd r)) records)"
  shows "create_index E tab_name col_names context s =
     finish_index E tab_name col_names col_metas (sum_list (map cm_len col_metas))
       (cwd s @ [get_index_name E tab_name col_names])
       (building s (cwd s @ [get_index_name E tab_name col_names]) col_metas
          (map (\<lambda>r. (composite_key col_metas (snd r), fst r)) records)
          ((trace s @ [Ix_create_index tab_name col_metas, Ix_open_index tab_name col_names,
                       New_char (sum_list (map cm_len col_metas))])
           @ map (\<lambda>r. Ix_insert_entry (cwd s @ [get_index_name E tab_name col_names])
                        (composite_key col_metas (snd r)) (fst r)) records))"
proof -
  let ?ih = "cwd s @ [get_index_name E tab_name col_names]"
  let ?total = "sum_list (map cm_len col_metas)"
  let ?tr = "trace s @ [Ix_create_index tab_name col_metas, Ix_open_index tab_name col_names, New_char ?total]"
  let ?es = "map (\<lambda>r. (composite_key col_metas (snd r), fst r)) records"
  let ?ins = "map (\<lambda>r. Ix_insert_entry ?ih (composite_key col_metas (snd r)) (fst r)) records"
  define s1 where "s1 = building s ?ih col_metas ?es (?tr @ ?ins)"
  note b = index_buildableD [OF assms(1)]
  from b(5) obtain rsz where recfile: "files s fh = Some (RecFile rsz records)" by blast
  from b(1) have nofile: "files s ?ih = None" by (simp add: is_file_def)
  with recfile have differ: "fh \<noteq> ?ih" by auto
  have "distinct (map fst ([] :: (bytes \<times> Rid) list) @ map (\<lambda>r. composite_key col_metas (snd r)) records)"
    using assms(3) by simp
  from build_index_distinct [OF recfile differ b(6) subset_refl b(7) b(3) _ this,
      where key = "replicate (nat (sint ?total)) 0" and E = E and tn = tab_name and cns = col_names
        and ctx = ctx and tr = ?tr]
  have loop: "build_index E tab_name col_names col_metas ?ih (Some fh) (Some ctx) (map fst records)
        (replicate (nat (sint ?total)) 0) (building s ?ih col_metas [] ?tr) = (Returned False, s1)"
    by (simp add: s1_def)
  have "create_index E tab_name col_names context s =
      finish_index E tab_name col_names col_metas ?total ?ih s1"
    unfolding create_index_prefix [OF assms(1)] assms(2)
    by (simp add: and_then_def loop)
  then show ?thesis by (simp only: s1_def)
qed

lemma create_index_run_duplicate:
  assumes "index_buildable E tab_name col_names s col_metas fh records"
    and "context = Some ctx"
    and "\<not> distinct (map (\<lambda>r. composite_key col_metas (snd r)) records)"
  shows "\<exists>inserts. create_index E tab_name col_names context s =
     (Returned (),
      s\<lparr>trace := trace s
         @ [Ix_create_index tab_name col_metas, Ix_open_index tab_name col_names,
            New_char (sum_list (map cm_len col_metas))]
         @ inserts
         @ [Delete_char, Ix_close_index (cwd s @ [get_index_name E tab_name col_names]),
            Ix_destroy_index tab_name col_names]\<rparr>)"
proof -
  let ?ih = "cwd s @ [get_index_name E tab_name col_names]"
  let ?total = "sum_list (map cm_len col_metas)"
  let ?tr = "trace s @ [Ix_create_index tab_name col_metas, Ix_open_index tab_name col_names, New_char ?total]"
  note b = index_buildableD [OF assms(1)]
  from b(5) obtain rsz where recfile: "files s fh = Some (RecFile rsz records)" by blast
  from b(1) have nofile: "files s ?ih = None" by (simp add: is_file_def)
  with recfile have differ: "fh \<noteq> ?ih" by auto
  have "\<not> distinct (map fst ([] :: (bytes \<times> Rid) list) @ map (\<lambda>r. composite_key col_metas (snd r)) records)"
    using assms(3) by simp
  from build_index_duplicate [OF recfile refl differ b(6) subset_refl b(7) b(3) _ this,
      where key = "replicate (nat (sint ?total)) 0" and ctx = ctx and tr = ?tr]
  obtain pre where loop: "build_index E tab_name col_names col_metas ?ih (Some fh) (Some ctx) (map fst records)
        (replicate (nat (sint ?total)) 0) (building s ?ih col_metas [] ?tr) =
     (Returned True, s\<lparr>files := (files s)(?ih := None),
        trace := ?tr @ pre @ [Delete_char, Ix_close_index ?ih, Ix_destroy_index tab_name col_names]\<rparr>)"
    by auto
  have same: "(files s)(?ih := None) = files s" using nofile by (simp add: fun_upd_idem_iff)
  have "create_index E tab_name col_names context s =
     (Returned (), s\<lparr>trace := ?tr @ pre @ [Delete_char, Ix_close_index ?ih, Ix_destroy_index tab_name col_names]\<rparr>)"
    unfolding create_index_prefix [OF assms(1)] assms(2)
    by (simp add: and_then_def loop return_def same)
  then show ?thesis by (intro exI [of _ pre]) (simp only: append_assoc)
qed

subsection \<open>\<^verbatim>\<open>create_index\<close> on distinct keys\<close>

text \<open>
  C4. Let \<^verbatim>\<open>create_index\<close> be called with a context on a table that can be indexed
  (\<open>index_buildable\<close>) and whose records have distinct composite keys. Then it returns;
  the new index holds, for each record in scan order, the pair of the record's
  composite key and its identifier, and \<^verbatim>\<open>insert_entry\<close> was called once for each record
  with that pair; every key is the concatenation of the byte ranges of the resolved
  columns and is as long as the sum of their lengths, which is the \<^verbatim>\<open>total_len\<close> of the
  source; the table has one more \<^verbatim>\<open>IndexMeta\<close> at the end of its list, with the resolved
  columns, that length and the number of column names; the handle is registered under
  the canonical name; and the metadata file holds the new catalog.
\<close>

theorem create_index_builds:
  assumes "index_buildable E tab_name col_names s col_metas fh records"
    and "context = Some ctx"
    and "distinct (map (\<lambda>r. composite_key col_metas (snd r)) records)"
  shows "\<exists>s' table_meta.
       create_index E tab_name col_names context s = (Returned (), s')
     \<and> files s' (cwd s @ [get_index_name E tab_name col_names])
         = Some (IxFile col_metas (map (\<lambda>r. (composite_key col_metas (snd r), fst r)) records))
     \<and> trace s' = trace s
         @ [Ix_create_index tab_name col_metas, Ix_open_index tab_name col_names,
            New_char (sum_list (map cm_len col_metas))]
         @ map (\<lambda>r. Ix_insert_entry (cwd s @ [get_index_name E tab_name col_names])
                      (composite_key col_metas (snd r)) (fst r)) records
         @ [Delete_char, New_IndexMeta]
     \<and> list_all (\<lambda>r. int (length (composite_key col_metas (snd r)))
                        = sum_list (map (\<lambda>col. sint (cm_len col)) col_metas)) records
     \<and> sint (sum_list (map cm_len col_metas)) = sum_list (map (\<lambda>col. sint (cm_len col)) col_metas)
     \<and> map cm_name col_metas = col_names
     \<and> map_of (dm_tabs (db s)) tab_name = Some table_meta
     \<and> map_of (dm_tabs (db s')) tab_name
         = Some (table_meta\<lparr>tm_indexes := tm_indexes table_meta @
             [\<lparr>im_tab_name = tab_name, im_col_tot_len = sum_list (map cm_len col_metas),
               im_col_num = of_nat (length col_names), im_cols = col_metas\<rparr>]\<rparr>)
     \<and> ihs s' = store (get_index_name E tab_name col_names)
                    (Some (cwd s @ [get_index_name E tab_name col_names])) (ihs s)
     \<and> meta_file s' (cwd s) = Some [db s']"
proof -
  let ?ih = "cwd s @ [get_index_name E tab_name col_names]"
  let ?total = "sum_list (map cm_len col_metas)"
  let ?tr = "trace s @ [Ix_create_index tab_name col_metas, Ix_open_index tab_name col_names, New_char ?total]"
  let ?es = "map (\<lambda>r. (composite_key col_metas (snd r), fst r)) records"
  let ?ins = "map (\<lambda>r. Ix_insert_entry ?ih (composite_key col_metas (snd r)) (fst r)) records"
  define s1 where "s1 = building s ?ih col_metas ?es (?tr @ ?ins)"
  define s2 where "s2 = snd (finish_index E tab_name col_names col_metas ?total ?ih s1)"
  note b = index_buildableD [OF assms(1)]
  from b(2) obtain table_meta where table: "map_of (dm_tabs (db s)) tab_name = Some table_meta"
    and cols: "those (map (\<lambda>col_name. find (\<lambda>col. cm_name col = col_name) (tm_cols table_meta)) col_names) = Some col_metas"
    by blast
  have "create_index E tab_name col_names context s =
      finish_index E tab_name col_names col_metas ?total ?ih s1"
    unfolding s1_def by (rule create_index_run_distinct [OF assms])
  also have "\<dots> = (Returned (), s2)"
    unfolding s2_def using finish_index_run(1) [of E tab_name col_names col_metas ?total ?ih s1]
    by (metis prod.collapse)
  finally have run: "create_index E tab_name col_names context s = (Returned (), s2)" .
  have s1: "files s1 ?ih = Some (IxFile col_metas ?es)" "trace s1 = ?tr @ ?ins" "db s1 = db s"
    "ihs s1 = ihs s" "cwd s1 = cwd s"
    by (simp_all add: s1_def building_def)
  have lens: "list_all (\<lambda>r. int (length (composite_key col_metas (snd r)))
                        = sum_list (map (\<lambda>col. sint (cm_len col)) col_metas)) records"
    using b(7) by (simp add: list_all_iff length_composite_key)
  have total: "sint ?total = sum_list (map (\<lambda>col. sint (cm_len col)) col_metas)"
    using sint_sum_list [OF b(3)] by (simp add: comp_def)
  have f: "files s2 ?ih = Some (IxFile col_metas ?es)"
    by (simp add: s2_def finish_index_run s1)
  have t: "trace s2 = ?tr @ ?ins @ [Delete_char, New_IndexMeta]"
    by (simp add: s2_def finish_index_run s1)
  have d: "map_of (dm_tabs (db s2)) tab_name
         = Some (table_meta\<lparr>tm_indexes := tm_indexes table_meta @
             [\<lparr>im_tab_name = tab_name, im_col_tot_len = ?total,
               im_col_num = of_nat (length col_names), im_cols = col_metas\<rparr>]\<rparr>)"
    by (simp add: s2_def finish_index_run s1 map_of_modify table)
  have i: "ihs s2 = store (get_index_name E tab_name col_names) (Some ?ih) (ihs s)"
    by (simp add: s2_def finish_index_run s1)
  have m: "meta_file s2 (cwd s) = Some [db s2]"
    unfolding s2_def using finish_index_run(8) [of E tab_name col_names col_metas ?total ?ih s1]
    by (simp only: s1)
  show ?thesis
    apply (rule exI [of _ s2])
    apply (rule exI [of _ table_meta])
    apply (intro conjI)
             apply (rule run)
            apply (rule f)
           apply (simp only: t append_assoc)
          apply (rule lens)
         apply (rule total)
        apply (rule those_find_names [OF cols])
       apply (rule table)
      apply (rule d)
     apply (rule i)
    apply (rule m)
    done
qed

text \<open>On the example: the index on \<open>a\<close>, whose keys are the first four bytes of the records.\<close>

theorem create_index_builds_witness:
  "index_buildable ex_env ''t'' [''a''] ex_db_t [ex_col_a] [''db'', ''t''] ex_records
   \<and> distinct (map (\<lambda>r. composite_key [ex_col_a] (snd r)) ex_records)
   \<and> (\<exists>s'. create_index ex_env ''t'' [''a''] (Some ex_context) ex_db_t = (Returned (), s')
        \<and> files s' [''db'', ''t_a.idx'']
            = Some (IxFile [ex_col_a] [([1, 0, 0, 0], ex_rid1), ([2, 0, 0, 0], ex_rid2)])
        \<and> trace s' = [Ix_create_index ''t'' [ex_col_a], Ix_open_index ''t'' [''a''], New_char 4,
                       Ix_insert_entry [''db'', ''t_a.idx''] [1, 0, 0, 0] ex_rid1,
                       Ix_insert_entry [''db'', ''t_a.idx''] [2, 0, 0, 0] ex_rid2,
                       Delete_char, New_IndexMeta]
        \<and> map_of (dm_tabs (db s')) ''t'' = Some ex_tab_indexed
        \<and> ihs s' = [(''t_a.idx'', Some [''db'', ''t_a.idx''])]
        \<and> meta_file s' [''db''] = Some [db s'])"
proof -
  have keys: "distinct (map (\<lambda>r. composite_key [ex_col_a] (snd r)) ex_records)"
    by (simp add: composite_key_def ex_defs)
  have k: "map (\<lambda>r. composite_key [ex_col_a] (snd r)) ex_records = [[1, 0, 0, 0], [2, 0, 0, 0]]"
    by (simp add: composite_key_def ex_defs)
  from create_index_builds [OF ex_buildable_a refl keys, of ex_context]
  obtain s' table_meta where run: "create_index ex_env ''t'' [''a''] (Some ex_context) ex_db_t = (Returned (), s')"
    and f: "files s' (cwd ex_db_t @ [get_index_name ex_env ''t'' [''a'']])
         = Some (IxFile [ex_col_a] (map (\<lambda>r. (composite_key [ex_col_a] (snd r), fst r)) ex_records))"
    and t: "trace s' = trace ex_db_t
         @ [Ix_create_index ''t'' [ex_col_a], Ix_open_index ''t'' [''a''],
            New_char (sum_list (map cm_len [ex_col_a]))]
         @ map (\<lambda>r. Ix_insert_entry (cwd ex_db_t @ [get_index_name ex_env ''t'' [''a'']])
                      (composite_key [ex_col_a] (snd r)) (fst r)) ex_records
         @ [Delete_char, New_IndexMeta]"
    and tm: "map_of (dm_tabs (db ex_db_t)) ''t'' = Some table_meta"
    and d: "map_of (dm_tabs (db s')) ''t''
         = Some (table_meta\<lparr>tm_indexes := tm_indexes table_meta @
             [\<lparr>im_tab_name = ''t'', im_col_tot_len = sum_list (map cm_len [ex_col_a]),
               im_col_num = of_nat (length [''a'']), im_cols = [ex_col_a]\<rparr>]\<rparr>)"
    and i: "ihs s' = store (get_index_name ex_env ''t'' [''a''])
                    (Some (cwd ex_db_t @ [get_index_name ex_env ''t'' [''a'']])) (ihs ex_db_t)"
    and m: "meta_file s' (cwd ex_db_t) = Some [db s']"
    by blast
  from tm have tm': "table_meta = ex_tab" by (simp add: ex_db_t_def)
  have c: "cwd ex_db_t = [''db'']" "trace ex_db_t = []" "ihs ex_db_t = []"
    and n: "get_index_name ex_env ''t'' [''a''] = ''t_a.idx''"
    by (simp_all add: ex_db_t_def ex_env_def)
  have "files s' [''db'', ''t_a.idx'']
            = Some (IxFile [ex_col_a] [([1, 0, 0, 0], ex_rid1), ([2, 0, 0, 0], ex_rid2)])"
    using f unfolding c n by (simp add: composite_key_def ex_col_a_def ex_records_def ex_rec1_def ex_rec2_def)
  moreover have "trace s' = [Ix_create_index ''t'' [ex_col_a], Ix_open_index ''t'' [''a''], New_char 4,
                       Ix_insert_entry [''db'', ''t_a.idx''] [1, 0, 0, 0] ex_rid1,
                       Ix_insert_entry [''db'', ''t_a.idx''] [2, 0, 0, 0] ex_rid2,
                       Delete_char, New_IndexMeta]"
    using t unfolding c n by (simp add: composite_key_def ex_col_a_def ex_records_def ex_rec1_def ex_rec2_def)
  moreover have "map_of (dm_tabs (db s')) ''t'' = Some ex_tab_indexed"
    using d unfolding tm' by (simp add: ex_tab_def ex_tab_indexed_def ex_index_a_def ex_col_a_def)
  moreover have "ihs s' = [(''t_a.idx'', Some [''db'', ''t_a.idx''])]"
    using i unfolding c n by simp
  moreover have "meta_file s' [''db''] = Some [db s']"
    using m unfolding c .
  ultimately show ?thesis using ex_buildable_a keys run by blast
qed

subsection \<open>\<^verbatim>\<open>create_index\<close> on a duplicate key\<close>

text \<open>
  C3. Let \<^verbatim>\<open>create_index\<close> be called with a context on a table that can be indexed and in
  which two records have the same composite key, so that an insertion answers
  \<^verbatim>\<open>IX_NO_PAGE\<close>. Then it returns without an exception, and the state differs from the
  one before the call in the trace only: the catalog, both registries, the metadata
  file and the files on disk are as they were, so the index file that was created is
  gone again. The trace shows the index created and opened, the key buffer allocated,
  insertions, and then at its end the key buffer deleted, the index closed and the
  index destroyed.
\<close>

theorem create_index_duplicate_aborts:
  assumes "index_buildable E tab_name col_names s col_metas fh records"
    and "context = Some ctx"
    and "\<not> distinct (map (\<lambda>r. composite_key col_metas (snd r)) records)"
  shows "\<exists>s' inserts.
       create_index E tab_name col_names context s = (Returned (), s')
     \<and> trace s' = trace s
         @ [Ix_create_index tab_name col_metas, Ix_open_index tab_name col_names,
            New_char (sum_list (map cm_len col_metas))]
         @ inserts
         @ [Delete_char, Ix_close_index (cwd s @ [get_index_name E tab_name col_names]),
            Ix_destroy_index tab_name col_names]
     \<and> s' = s\<lparr>trace := trace s'\<rparr>
     \<and> db s' = db s \<and> fhs s' = fhs s \<and> ihs s' = ihs s
     \<and> meta_file s' = meta_file s \<and> files s' = files s
     \<and> \<not> is_file (get_index_name E tab_name col_names) s'"
proof -
  from create_index_run_duplicate [OF assms]
  obtain inserts where run: "create_index E tab_name col_names context s =
     (Returned (),
      s\<lparr>trace := trace s
         @ [Ix_create_index tab_name col_metas, Ix_open_index tab_name col_names,
            New_char (sum_list (map cm_len col_metas))]
         @ inserts
         @ [Delete_char, Ix_close_index (cwd s @ [get_index_name E tab_name col_names]),
            Ix_destroy_index tab_name col_names]\<rparr>)"
    by blast
  define s' where "s' = s\<lparr>trace := trace s
         @ [Ix_create_index tab_name col_metas, Ix_open_index tab_name col_names,
            New_char (sum_list (map cm_len col_metas))]
         @ inserts
         @ [Delete_char, Ix_close_index (cwd s @ [get_index_name E tab_name col_names]),
            Ix_destroy_index tab_name col_names]\<rparr>"
  from index_buildableD(1) [OF assms(1)]
  have nofile: "\<not> is_file (get_index_name E tab_name col_names) s'"
    by (simp add: is_file_def s'_def)
  have "create_index E tab_name col_names context s = (Returned (), s')"
    unfolding s'_def by (rule run)
  moreover have "trace s' = trace s
         @ [Ix_create_index tab_name col_metas, Ix_open_index tab_name col_names,
            New_char (sum_list (map cm_len col_metas))]
         @ inserts
         @ [Delete_char, Ix_close_index (cwd s @ [get_index_name E tab_name col_names]),
            Ix_destroy_index tab_name col_names]"
    by (simp add: s'_def)
  moreover have "s' = s\<lparr>trace := trace s'\<rparr>" "db s' = db s" "fhs s' = fhs s" "ihs s' = ihs s"
    "meta_file s' = meta_file s" "files s' = files s"
    by (simp_all add: s'_def)
  ultimately show ?thesis using nofile by blast
qed

text \<open>On the example: the index on \<open>b\<close>, which is the same in both records.\<close>

theorem create_index_duplicate_aborts_witness:
  "index_buildable ex_env ''t'' [''b''] ex_db_t [ex_col_b] [''db'', ''t''] ex_records
   \<and> \<not> distinct (map (\<lambda>r. composite_key [ex_col_b] (snd r)) ex_records)
   \<and> (\<exists>s' inserts. create_index ex_env ''t'' [''b''] (Some ex_context) ex_db_t = (Returned (), s')
         \<and> trace s' = [Ix_create_index ''t'' [ex_col_b], Ix_open_index ''t'' [''b''], New_char 8]
              @ inserts
              @ [Delete_char, Ix_close_index [''db'', ''t_b.idx''], Ix_destroy_index ''t'' [''b'']]
         \<and> db s' = db ex_db_t \<and> ihs s' = [] \<and> meta_file s' = meta_file ex_db_t
         \<and> files s' = files ex_db_t \<and> \<not> is_file ''t_b.idx'' s')"
proof -
  have keys: "\<not> distinct (map (\<lambda>r. composite_key [ex_col_b] (snd r)) ex_records)"
    by (simp add: composite_key_def ex_defs)
  have t: "trace ex_db_t = []" and c: "cwd ex_db_t = [''db'']" and i: "ihs ex_db_t = []"
    and n: "get_index_name ex_env ''t'' [''b''] = ''t_b.idx''" and l: "sum_list (map cm_len [ex_col_b]) = 8"
    by (simp_all add: ex_db_t_def ex_defs)
  from create_index_duplicate_aborts [OF ex_buildable_b refl keys, of ex_context]
  have "\<exists>s' inserts. create_index ex_env ''t'' [''b''] (Some ex_context) ex_db_t = (Returned (), s')
         \<and> trace s' = [Ix_create_index ''t'' [ex_col_b], Ix_open_index ''t'' [''b''], New_char 8]
              @ inserts
              @ [Delete_char, Ix_close_index [''db'', ''t_b.idx''], Ix_destroy_index ''t'' [''b'']]
         \<and> db s' = db ex_db_t \<and> ihs s' = [] \<and> meta_file s' = meta_file ex_db_t
         \<and> files s' = files ex_db_t \<and> \<not> is_file ''t_b.idx'' s'"
    unfolding t c n l i by (elim exE conjE, intro exI conjI) simp_all
  with ex_buildable_b keys show ?thesis by blast
qed

subsection \<open>\<^verbatim>\<open>create_index\<close> and a null context\<close>

text \<open>
  C9. On a table that can be indexed, \<^verbatim>\<open>create_index\<close> ends in a null dereference exactly
  when the context is null and the record file has a record: the source reads
  \<^verbatim>\<open>context->txn_\<close> for the first insertion without a check. With a context, or with no
  record, it does not.
\<close>

theorem create_index_null_context:
  assumes "index_buildable E tab_name col_names s col_metas fh records"
  shows "fst (create_index E tab_name col_names context s) = Crashed NullDereference
     \<longleftrightarrow> context = None \<and> records \<noteq> []"
proof (cases "context")
  case (Some ctx)
  show ?thesis
  proof (cases "distinct (map (\<lambda>r. composite_key col_metas (snd r)) records)")
    case True
    have "fst (create_index E tab_name col_names context s) = Returned ()"
      unfolding create_index_run_distinct [OF assms Some True] by (rule finish_index_run(1))
    with Some show ?thesis by simp
  next
    case False
    from create_index_run_duplicate [OF assms Some False] show ?thesis using Some by auto
  qed
next
  case None
  let ?ih = "cwd s @ [get_index_name E tab_name col_names]"
  let ?total = "sum_list (map cm_len col_metas)"
  let ?tr = "trace s @ [Ix_create_index tab_name col_metas, Ix_open_index tab_name col_names, New_char ?total]"
  note b = index_buildableD [OF assms(1)]
  from b(5) obtain rsz where recfile: "files s fh = Some (RecFile rsz records)" by blast
  from b(1) have nofile: "files s ?ih = None" by (simp add: is_file_def)
  with recfile have differ: "fh \<noteq> ?ih" by auto
  show ?thesis
  proof (cases records)
    case Nil
    have "create_index E tab_name col_names context s =
        finish_index E tab_name col_names col_metas ?total ?ih (building s ?ih col_metas [] ?tr)"
      unfolding create_index_prefix [OF assms(1)] using Nil by (simp add: and_then_def return_def)
    then have "fst (create_index E tab_name col_names context s) = Returned ()"
      by (simp only: finish_index_run(1))
    with Nil show ?thesis by simp
  next
    case (Cons r rs)
    obtain rid data where r: "r = (rid, data)" by (cases r)
    from b(7) Cons r have w: "list_all (col_within data) col_metas" by simp
    from Cons r have mem: "(rid, data) \<in> set records" by simp
    have "build_index E tab_name col_names col_metas ?ih (Some fh) None (rid # map fst rs)
       (replicate (nat (sint ?total)) 0) (building s ?ih col_metas [] ?tr) =
       (Crashed NullDereference, building s ?ih col_metas [] ?tr)"
      by (rule build_index_null_context [OF recfile differ b(6) mem w b(3)]) simp
    then have "fst (create_index E tab_name col_names context s) = Crashed NullDereference"
      unfolding create_index_prefix [OF assms(1)] using None Cons r
      by (simp add: and_then_def del: build_index.simps(2))
    with None Cons show ?thesis by simp
  qed
qed

text \<open>On the example, without and with a context.\<close>

theorem create_index_null_context_witness:
  "index_buildable ex_env ''t'' [''a''] ex_db_t [ex_col_a] [''db'', ''t''] ex_records
   \<and> ex_records \<noteq> []
   \<and> fst (create_index ex_env ''t'' [''a''] None ex_db_t) = Crashed NullDereference
   \<and> fst (create_index ex_env ''t'' [''a''] (Some ex_context) ex_db_t) \<noteq> Crashed NullDereference"
proof -
  have r: "ex_records \<noteq> []" by (simp add: ex_records_def)
  from create_index_null_context [OF ex_buildable_a, of None]
    create_index_null_context [OF ex_buildable_a, of "Some ex_context"] r ex_buildable_a
  show ?thesis by simp
qed

subsection \<open>\<^verbatim>\<open>create_index\<close> and the index flags of the columns\<close>

lemma keepsI: "(\<And>s. view (snd (m s)) = view s) \<Longrightarrow> keeps view m"
  by (simp add: keeps_def)

lemma keepsD: "keeps view m \<Longrightarrow> view (snd (m s)) = view s"
  by (simp add: keeps_def)

lemma keeps_and_then:
  assumes "keeps view m" and "\<And>a. keeps view (f a)"
  shows "keeps view (and_then m f)"
proof (rule keepsI)
  fix s
  show "view (snd (and_then m f s)) = view s"
  proof (cases "m s")
    case (Pair r s')
    with keepsD [OF assms(1), of s] have s': "view s' = view s" by simp
    show ?thesis
    proof (cases r)
      case (Returned a)
      with Pair s' keepsD [OF assms(2), of a s'] show ?thesis by (simp add: and_then_def)
    qed (use Pair s' in \<open>simp_all add: and_then_def\<close>)
  qed
qed

lemma keeps_return: "keeps view (return a)"
  by (simp add: keeps_def return_def)

lemma keeps_throw: "keeps view (throw e)"
  by (simp add: keeps_def throw_def)

lemma keeps_crash: "keeps view (crash c)"
  by (simp add: keeps_def crash_def)

lemma keeps_if: "keeps view m \<Longrightarrow> keeps view n \<Longrightarrow> keeps view (if b then m else n)"
  by simp

lemma keeps_update: "(\<And>s. view (g s) = view s) \<Longrightarrow> keeps view (update g)"
  by (simp add: keeps_def update_def return_def)

lemma keeps_case_prod: "(\<And>a b. keeps view (f a b)) \<Longrightarrow> keeps view (case p of (a, b) \<Rightarrow> f a b)"
  by (cases p) simp

lemmas keeps_intros = keeps_and_then keeps_return keeps_throw keeps_crash keeps_if keeps_case_prod

lemma keeps_cols_collab:
  "keeps cols_of (get_record fh rid context)"
  "keeps cols_of (ix_create_index E tn cols)" "keeps cols_of (ix_open_index E tn cns)"
  "keeps cols_of (ix_close_index ih)" "keeps cols_of (ix_destroy_index E tn cns)"
  "keeps cols_of (insert_entry h key rid t)" "keeps cols_of (new_char n32)" "keeps cols_of delete_char"
  "keeps cols_of new_IndexMeta" "keeps cols_of flush_meta" "keeps cols_of (fhs_subscript k)"
  "keeps cols_of (rm_scan fh)" "keeps cols_of (get_table tn)" "keeps cols_of (get_col tab cn)"
  by (auto simp: keeps_def cols_of_def get_record_def ix_create_index_def ix_open_index_def
      ix_close_index_def ix_destroy_index_def insert_entry_def new_char_def delete_char_def
      new_IndexMeta_def fhs_subscript_def subscript_def rm_scan_def get_table_def get_col_def run_defs
      split: option.splits disk_file.splits)

lemma keeps_copy_cols: "keeps view (copy_cols col_metas data key offset)"
  by (induction col_metas arbitrary: key offset) (auto intro: keeps_intros split: option.splits)

lemma keeps_resolve_cols: "keeps cols_of (resolve_cols tm cns acc tot)"
  by (induction cns arbitrary: acc tot) (auto intro!: keeps_intros keeps_cols_collab)

lemma keeps_build_index: "keeps cols_of (build_index E tn cns cms ih fh context rids key)"
  by (induction rids arbitrary: key)
     (auto intro!: keeps_intros keeps_cols_collab keeps_copy_cols split: option.splits)

lemma cols_modify_indexes:
  "map (\<lambda>(k, t). (k, tm_cols t)) (modify k' (\<lambda>t. t\<lparr>tm_indexes := g t\<rparr>) m)
     = map (\<lambda>(k, t). (k, tm_cols t)) m"
  by (induction m) auto

lemma keeps_finish_index: "keeps cols_of (finish_index E tab_name col_names col_metas total_len ih)"
  unfolding finish_index_def Let_def
  by (intro keeps_intros keeps_cols_collab keeps_update)
     (simp_all add: cols_of_def cols_modify_indexes)

lemma keeps_cols_create_index: "keeps cols_of (create_index E tab_name col_names context)"
proof (rule keepsI)
  fix s
  show "cols_of (snd (create_index E tab_name col_names context s)) = cols_of s"
  proof (cases "is_file (get_index_name E tab_name col_names) s")
    case True
    then show ?thesis by (simp add: create_index_def throw_def)
  next
    case False
    have "keeps cols_of
        (and_then (get_table tab_name) (\<lambda>table_meta.
         and_then (resolve_cols table_meta col_names [] 0) (\<lambda>(col_metas, total_len).
         and_then (ix_create_index E tab_name col_metas) (\<lambda>_.
         and_then (ix_open_index E tab_name col_names) (\<lambda>ih.
         and_then (fhs_subscript tab_name) (\<lambda>fh.
         and_then (new_char total_len) (\<lambda>key.
         and_then (rm_scan fh) (\<lambda>rids.
         and_then (build_index E tab_name col_names col_metas ih fh context rids key) (\<lambda>returned.
         if returned then return ()
         else finish_index E tab_name col_names col_metas total_len ih)))))))))"
      by (intro keeps_intros keeps_cols_collab keeps_resolve_cols keeps_build_index keeps_finish_index)
    from keepsD [OF this, of s] False show ?thesis
      by (simp add: create_index_def)
  qed
qed

lemma print_fields_run:
  "print_fields cols (Some c) s =
     (Returned (),
      s\<lparr>report := report s @ map (\<lambda>col. Row [cm_name col, coltype2str (cm_type col),
                                              if cm_index col then ''YES'' else ''NO'']) cols\<rparr>)"
proof (induction cols arbitrary: s)
  case Nil
  then show ?case by (simp add: return_def)
next
  case (Cons col cols)
  show ?case
    by (simp add: Let_def and_then_def printer_print_record_def return_def Cons.IH)
qed

lemma desc_table_run:
  assumes "map_of (dm_tabs (db s)) tab_name = Some tab"
  shows "desc_table tab_name (Some c) s =
     (Returned (),
      s\<lparr>report := report s @ Separator # Row [''Field'', ''Type'', ''Index''] # Separator
           # map (\<lambda>col. Row [cm_name col, coltype2str (cm_type col),
                               if cm_index col then ''YES'' else ''NO'']) (tm_cols tab)
           @ [Separator]\<rparr>)"
  using assms
  by (simp add: desc_table_def Let_def and_then_def get_table_def return_def
      printer_print_separator_def printer_print_record_def print_fields_run)

lemma map_of_cols_of: "map_of (cols_of s) k = map_option tm_cols (map_of (dm_tabs (db s)) k)"
  by (simp add: cols_of_def map_of_map)

text \<open>
  C10. Whatever \<^verbatim>\<open>create_index\<close> is called with and however it ends, every table of the
  catalog keeps its columns, and with them their index flags. So if the flags of a
  table are all false before the call, \<^verbatim>\<open>desc_table\<close> on the state after the call reports
  NO for every column. And \<^verbatim>\<open>create_table\<close> stores a table whose flags are all false.
\<close>

theorem create_index_keeps_index_flags:
  assumes "map_of (dm_tabs (db s)) tn = Some tab"
  shows "\<exists>tab'. map_of (dm_tabs (db (snd (create_index E tab_name col_names context s)))) tn = Some tab'
     \<and> tm_cols tab' = tm_cols tab
     \<and> (list_all (\<lambda>col. \<not> cm_index col) (tm_cols tab) \<longrightarrow>
          desc_table tn (Some c) (snd (create_index E tab_name col_names context s)) =
            (Returned (),
             (snd (create_index E tab_name col_names context s))
               \<lparr>report := report (snd (create_index E tab_name col_names context s))
                  @ Separator # Row [''Field'', ''Type'', ''Index''] # Separator
                  # map (\<lambda>col. Row [cm_name col, coltype2str (cm_type col), ''NO'']) (tm_cols tab)
                  @ [Separator]\<rparr>))
     \<and> (\<not> is_table (db s0) tn \<longrightarrow>
          (\<exists>new. map_of (dm_tabs (db (snd (create_table tn col_defs context0 s0)))) tn = Some new
             \<and> list_all (\<lambda>col. \<not> cm_index col) (tm_cols new)))"
proof -
  define s' where "s' = snd (create_index E tab_name col_names context s)"
  have "cols_of s' = cols_of s"
    unfolding s'_def by (rule keepsD [OF keeps_cols_create_index])
  then have "map_option tm_cols (map_of (dm_tabs (db s')) tn) = map_option tm_cols (map_of (dm_tabs (db s)) tn)"
    by (simp only: map_of_cols_of [symmetric])
  with assms obtain tab' where tab': "map_of (dm_tabs (db s')) tn = Some tab'" and cols: "tm_cols tab' = tm_cols tab"
    by auto
  have no: "map (\<lambda>col. Row [cm_name col, coltype2str (cm_type col), if cm_index col then ''YES'' else ''NO'']) cs
      = map (\<lambda>col. Row [cm_name col, coltype2str (cm_type col), ''NO'']) cs"
    if "list_all (\<lambda>col. \<not> cm_index col) cs" for cs
    using that by (induction cs) simp_all
  have desc: "desc_table tn (Some c) s' =
            (Returned (),
             s'\<lparr>report := report s' @ Separator # Row [''Field'', ''Type'', ''Index''] # Separator
                  # map (\<lambda>col. Row [cm_name col, coltype2str (cm_type col), ''NO'']) (tm_cols tab)
                  @ [Separator]\<rparr>)"
    if "list_all (\<lambda>col. \<not> cm_index col) (tm_cols tab)"
    using desc_table_run [OF tab', of c] no [OF that] by (simp add: cols)
  have fresh: "\<exists>new. map_of (dm_tabs (db (snd (create_table tn col_defs context0 s0)))) tn = Some new
             \<and> list_all (\<lambda>col. \<not> cm_index col) (tm_cols new)"
    if "\<not> is_table (db s0) tn"
  proof -
    have "list_all (\<lambda>col. \<not> cm_index col) (fst (layout_cols tn col_defs 0 []))"
      by (simp add: list_all_length layout_cols_length layout_cols_nth)
    then show ?thesis
      by (simp add: create_table_run(2) [OF that] map_of_map_assign)
  qed
  from tab' cols desc fresh show ?thesis unfolding s'_def by blast
qed

text \<open>
  On the example: after the index on \<open>a\<close> has been created, \<^verbatim>\<open>desc_table\<close> reports NO for
  \<open>a\<close> and for \<open>b\<close>.
\<close>

theorem create_index_keeps_index_flags_witness:
  "map_of (dm_tabs (db ex_db_t)) ''t'' = Some ex_tab
   \<and> list_all (\<lambda>col. \<not> cm_index col) (tm_cols ex_tab)
   \<and> fst (create_index ex_env ''t'' [''a''] (Some ex_context) ex_db_t) = Returned ()
   \<and> map_of (dm_tabs (db (snd (create_index ex_env ''t'' [''a''] (Some ex_context) ex_db_t)))) ''t''
       = Some ex_tab_indexed
   \<and> report (snd (desc_table ''t'' (Some ex_context)
                (snd (create_index ex_env ''t'' [''a''] (Some ex_context) ex_db_t))))
       = report (snd (create_index ex_env ''t'' [''a''] (Some ex_context) ex_db_t))
         @ [Separator, Row [''Field'', ''Type'', ''Index''], Separator,
            Row [''a'', ''INT'', ''NO''], Row [''b'', ''STRING'', ''NO''], Separator]
   \<and> \<not> is_table (db ex_db_empty) ''t''
   \<and> (\<exists>new. map_of (dm_tabs (db (snd (create_table ''t''
                  [\<lparr>cd_name = ''a'', cd_type = TYPE_INT, cd_len = 4\<rparr>,
                   \<lparr>cd_name = ''b'', cd_type = TYPE_STRING, cd_len = 8\<rparr>] None ex_db_empty)))) ''t''
                = Some new
         \<and> list_all (\<lambda>col. \<not> cm_index col) (tm_cols new))"
proof -
  let ?s' = "snd (create_index ex_env ''t'' [''a''] (Some ex_context) ex_db_t)"
  have h: "map_of (dm_tabs (db ex_db_t)) ''t'' = Some ex_tab" by (simp add: ex_db_t_def)
  have flags: "list_all (\<lambda>col. \<not> cm_index col) (tm_cols ex_tab)" by (simp add: ex_defs)
  have fresh: "\<not> is_table (db ex_db_empty) ''t''" by (simp add: is_table_def ex_db_empty_def)
  have keys: "distinct (map (\<lambda>r. composite_key [ex_col_a] (snd r)) ex_records)"
    by (simp add: composite_key_def ex_defs)
  note run = create_index_run_distinct [OF ex_buildable_a refl keys, of ex_context]
  have ret: "fst (create_index ex_env ''t'' [''a''] (Some ex_context) ex_db_t) = Returned ()"
    unfolding run by (rule finish_index_run(1))
  have ix: "map_of (dm_tabs (db ?s')) ''t'' = Some ex_tab_indexed"
    unfolding run
    by (simp add: finish_index_run(2) building_def map_of_modify ex_db_t_def
        ex_tab_def ex_tab_indexed_def ex_index_a_def ex_col_a_def)
  from create_index_keeps_index_flags [OF h, of ex_env "''t''" "[''a'']" "Some ex_context" ex_context
      ex_db_empty "[\<lparr>cd_name = ''a'', cd_type = TYPE_INT, cd_len = 4\<rparr>,
                   \<lparr>cd_name = ''b'', cd_type = TYPE_STRING, cd_len = 8\<rparr>]" None] flags fresh
  have desc: "desc_table ''t'' (Some ex_context) ?s' =
            (Returned (),
             ?s'\<lparr>report := report ?s'
                  @ Separator # Row [''Field'', ''Type'', ''Index''] # Separator
                  # map (\<lambda>col. Row [cm_name col, coltype2str (cm_type col), ''NO'']) (tm_cols ex_tab)
                  @ [Separator]\<rparr>)"
    and new: "\<exists>new. map_of (dm_tabs (db (snd (create_table ''t''
                  [\<lparr>cd_name = ''a'', cd_type = TYPE_INT, cd_len = 4\<rparr>,
                   \<lparr>cd_name = ''b'', cd_type = TYPE_STRING, cd_len = 8\<rparr>] None ex_db_empty)))) ''t''
                = Some new
         \<and> list_all (\<lambda>col. \<not> cm_index col) (tm_cols new)"
    by blast+
  have rep: "report (snd (desc_table ''t'' (Some ex_context) ?s'))
       = report ?s' @ [Separator, Row [''Field'', ''Type'', ''Index''], Separator,
            Row [''a'', ''INT'', ''NO''], Row [''b'', ''STRING'', ''NO''], Separator]"
    unfolding desc by (simp add: ex_tab_def ex_col_a_def ex_col_b_def)
  from h flags ret ix rep fresh new show ?thesis by blast
qed

subsection \<open>The two shapes of \<^verbatim>\<open>drop_index\<close>\<close>

lemma drop_index_run:
  assumes "map_of (dm_tabs (db s)) tab_name = Some table_meta"
    and "is_file (get_index_name E tab_name col_names) s"
    and "map_of (ihs s) (get_index_name E tab_name col_names) = Some (Some ih)"
    and "find (\<lambda>index. map cm_name (im_cols index) = col_names) (tm_indexes table_meta) = Some index"
  shows "fst (drop_index E tab_name col_names context s) = Returned ()"
    and "trace (snd (drop_index E tab_name col_names context s))
          = trace s @ [Ix_close_index ih, Ix_destroy_index tab_name col_names]"
    and "ihs (snd (drop_index E tab_name col_names context s))
          = erase (get_index_name E tab_name col_names) (ihs s)"
    and "files (snd (drop_index E tab_name col_names context s))
          = (files s)(cwd s @ [get_index_name E tab_name col_names] := None)"
    and "dm_tabs (db (snd (drop_index E tab_name col_names context s)))
          = modify tab_name
              (\<lambda>t. t\<lparr>tm_indexes := filter (\<lambda>idx. \<not> IndexMeta_eq E idx index) (tm_indexes t)\<rparr>)
              (dm_tabs (db s))"
    and "meta_file (snd (drop_index E tab_name col_names context s)) (cwd s)
          = Some [db (snd (drop_index E tab_name col_names context s))]"
  using assms
  by (simp_all add: drop_index_def Let_def get_table_def ihs_subscript_def subscript_def
      ix_close_index_def ix_destroy_index_def get_index_meta_def remove_index_def run_defs)

text \<open>
  C8. \<^verbatim>\<open>drop_index\<close> on \<^verbatim>\<open>ColMeta\<close>s is \<^verbatim>\<open>drop_index\<close> on the names of those columns: the
  same result and the same state, trace included. On a table of the catalog both fail
  with \<^verbatim>\<open>IndexNotFoundError\<close> when there is no file under the canonical name; and where
  the file exists, the handle is registered and the table has an \<^verbatim>\<open>IndexMeta\<close> with these
  column names, both close the handle, destroy the index, erase the handle from the
  registry, remove from the table every \<^verbatim>\<open>IndexMeta\<close> equal to the one found, and write the
  catalog to the metadata file.
\<close>

theorem drop_index_shapes_agree:
  "drop_index_cols E tab_name cols context s = drop_index E tab_name (map cm_name cols) context s
   \<and> (is_table (db s) tab_name \<and> \<not> is_file (get_index_name E tab_name (map cm_name cols)) s \<longrightarrow>
        drop_index E tab_name (map cm_name cols) context s
          = (Threw (IndexNotFoundError tab_name (map cm_name cols)), s))
   \<and> (map_of (dm_tabs (db s)) tab_name = Some table_meta
        \<and> is_file (get_index_name E tab_name (map cm_name cols)) s
        \<and> map_of (ihs s) (get_index_name E tab_name (map cm_name cols)) = Some (Some ih)
        \<and> find (\<lambda>index. map cm_name (im_cols index) = map cm_name cols) (tm_indexes table_meta) = Some index
      \<longrightarrow> (\<exists>s'. drop_index E tab_name (map cm_name cols) context s = (Returned (), s')
            \<and> trace s' = trace s @ [Ix_close_index ih, Ix_destroy_index tab_name (map cm_name cols)]
            \<and> ihs s' = erase (get_index_name E tab_name (map cm_name cols)) (ihs s)
            \<and> files s' = (files s)(cwd s @ [get_index_name E tab_name (map cm_name cols)] := None)
            \<and> dm_tabs (db s') = modify tab_name
                 (\<lambda>t. t\<lparr>tm_indexes := filter (\<lambda>idx. \<not> IndexMeta_eq E idx index) (tm_indexes t)\<rparr>)
                 (dm_tabs (db s))
            \<and> meta_file s' (cwd s) = Some [db s']))"
proof -
  have "drop_index_cols E tab_name cols context = drop_index E tab_name (map cm_name cols) context"
    by (simp add: drop_index_cols_def drop_index_def get_index_name_cols_def
        ix_destroy_index_cols_def Let_def cong: if_cong)
  moreover have "drop_index E tab_name (map cm_name cols) context s
          = (Threw (IndexNotFoundError tab_name (map cm_name cols)), s)"
    if "is_table (db s) tab_name" "\<not> is_file (get_index_name E tab_name (map cm_name cols)) s"
    using that
    by (auto simp: drop_index_def Let_def is_table_def get_table_def and_then_def return_def throw_def)
  moreover have "\<exists>s'. drop_index E tab_name (map cm_name cols) context s = (Returned (), s')
            \<and> trace s' = trace s @ [Ix_close_index ih, Ix_destroy_index tab_name (map cm_name cols)]
            \<and> ihs s' = erase (get_index_name E tab_name (map cm_name cols)) (ihs s)
            \<and> files s' = (files s)(cwd s @ [get_index_name E tab_name (map cm_name cols)] := None)
            \<and> dm_tabs (db s') = modify tab_name
                 (\<lambda>t. t\<lparr>tm_indexes := filter (\<lambda>idx. \<not> IndexMeta_eq E idx index) (tm_indexes t)\<rparr>)
                 (dm_tabs (db s))
            \<and> meta_file s' (cwd s) = Some [db s']"
    if "map_of (dm_tabs (db s)) tab_name = Some table_meta"
      "is_file (get_index_name E tab_name (map cm_name cols)) s"
      "map_of (ihs s) (get_index_name E tab_name (map cm_name cols)) = Some (Some ih)"
      "find (\<lambda>index. map cm_name (im_cols index) = map cm_name cols) (tm_indexes table_meta) = Some index"
  proof -
    note run = drop_index_run [OF that, of "context"]
    have "drop_index E tab_name (map cm_name cols) context s
        = (Returned (), snd (drop_index E tab_name (map cm_name cols) context s))"
      using run(1) by (metis prod.collapse)
    with run(2-6) show ?thesis by blast
  qed
  ultimately show ?thesis by simp
qed

text \<open>On the examples: without the index file, and with the index on \<open>a\<close>.\<close>

theorem drop_index_shapes_agree_witness:
  "is_table (db ex_db_t) ''t'' \<and> \<not> is_file (get_index_name ex_env ''t'' [''a'']) ex_db_t
   \<and> drop_index_cols ex_env ''t'' [ex_col_a] None ex_db_t = (Threw (IndexNotFoundError ''t'' [''a'']), ex_db_t)
   \<and> drop_index ex_env ''t'' [''a''] None ex_db_t = (Threw (IndexNotFoundError ''t'' [''a'']), ex_db_t)
   \<and> drop_index_cols ex_env ''t'' [ex_col_a] None ex_db_t_indexed
       = drop_index ex_env ''t'' [''a''] None ex_db_t_indexed
   \<and> (\<exists>s'. drop_index_cols ex_env ''t'' [ex_col_a] None ex_db_t_indexed = (Returned (), s')
         \<and> trace s' = [Ix_close_index [''db'', ''t_a.idx''], Ix_destroy_index ''t'' [''a'']]
         \<and> ihs s' = [] \<and> files s' [''db'', ''t_a.idx''] = None
         \<and> dm_tabs (db s') = [(''t'', ex_tab)]
         \<and> meta_file s' [''db''] = Some [db s'])"
proof -
  have h: "is_table (db ex_db_t) ''t''" "\<not> is_file (get_index_name ex_env ''t'' [''a'']) ex_db_t"
    by (simp_all add: is_table_def is_file_def ex_db_t_def ex_defs)
  have n: "map cm_name [ex_col_a] = [''a'']" "get_index_name ex_env ''t'' [''a''] = ''t_a.idx''"
    by (simp_all add: ex_defs)
  have g: "map_of (dm_tabs (db ex_db_t_indexed)) ''t'' = Some ex_tab_indexed"
    "is_file ''t_a.idx'' ex_db_t_indexed"
    "map_of (ihs ex_db_t_indexed) ''t_a.idx'' = Some (Some [''db'', ''t_a.idx''])"
    "find (\<lambda>index. map cm_name (im_cols index) = [''a'']) (tm_indexes ex_tab_indexed) = Some ex_index_a"
    by (simp_all add: is_file_def ex_db_t_indexed_def ex_defs)
  have c: "trace ex_db_t_indexed = []" "cwd ex_db_t_indexed = [''db'']"
    "erase ''t_a.idx'' (ihs ex_db_t_indexed) = []"
    "modify ''t'' (\<lambda>t. t\<lparr>tm_indexes := filter (\<lambda>idx. \<not> IndexMeta_eq ex_env idx ex_index_a) (tm_indexes t)\<rparr>)
       (dm_tabs (db ex_db_t_indexed)) = [(''t'', ex_tab)]"
    by (simp_all add: ex_db_t_indexed_def ex_env_def ex_tab_def ex_tab_indexed_def)
  from drop_index_shapes_agree [of ex_env "''t''" "[ex_col_a]" None ex_db_t]
  have 1: "drop_index_cols ex_env ''t'' [ex_col_a] None ex_db_t = (Threw (IndexNotFoundError ''t'' [''a'']), ex_db_t)"
    "drop_index ex_env ''t'' [''a''] None ex_db_t = (Threw (IndexNotFoundError ''t'' [''a'']), ex_db_t)"
    using h unfolding n by simp_all
  from drop_index_shapes_agree [of ex_env "''t''" "[ex_col_a]" None ex_db_t_indexed ex_tab_indexed
      "[''db'', ''t_a.idx'']" ex_index_a]
  have 2: "drop_index_cols ex_env ''t'' [ex_col_a] None ex_db_t_indexed
       = drop_index ex_env ''t'' [''a''] None ex_db_t_indexed"
    and 3: "\<exists>s'. drop_index ex_env ''t'' [''a''] None ex_db_t_indexed = (Returned (), s')
         \<and> trace s' = [Ix_close_index [''db'', ''t_a.idx''], Ix_destroy_index ''t'' [''a'']]
         \<and> ihs s' = [] \<and> files s' = (files ex_db_t_indexed)([''db'', ''t_a.idx''] := None)
         \<and> dm_tabs (db s') = [(''t'', ex_tab)]
         \<and> meta_file s' [''db''] = Some [db s']"
    using g unfolding n c by simp_all
  from 3 have "\<exists>s'. drop_index ex_env ''t'' [''a''] None ex_db_t_indexed = (Returned (), s')
         \<and> trace s' = [Ix_close_index [''db'', ''t_a.idx''], Ix_destroy_index ''t'' [''a'']]
         \<and> ihs s' = [] \<and> files s' [''db'', ''t_a.idx''] = None
         \<and> dm_tabs (db s') = [(''t'', ex_tab)]
         \<and> meta_file s' [''db''] = Some [db s']"
    by auto
  with 1 2 h show ?thesis by simp
qed

end
